theory Spec2Isabelle
  imports Main "HOL-Library.Word"
begin

section \<open>Host values: bytes, strings, errors\<close>

text \<open>
  The service in \<^verbatim>\<open>src/services/library.service.ts\<close> moves byte buffers through
  JavaScript strings. An \<^verbatim>\<open>ArrayBuffer\<close> viewed through \<^verbatim>\<open>Uint8Array\<close> is a list of
  8-bit words; a JavaScript string is a list of UTF-16 code units, so \<^verbatim>\<open>charCodeAt\<close>,
  \<^verbatim>\<open>length\<close> and \<^verbatim>\<open>String.fromCharCode\<close> count and produce 16-bit words. Text that the
  service never inspects (ids, titles, MIME types, dates) is kept as \<^typ>\<open>string\<close>.
  A private method \<^verbatim>\<open>_name\<close> of the class is the constant \<open>priv_name\<close> here.
\<close>

type_synonym u8 = "8 word"
type_synonym code_unit = "16 word"
type_synonym js_string = "code_unit list"

definition js :: "string \<Rightarrow> js_string" where
  "js s = map of_char s"

datatype js_error =
    InvalidCharacterError
  | PluginError
  | IDBRequestError

section \<open>The host's \<^verbatim>\<open>btoa\<close> and \<^verbatim>\<open>atob\<close>\<close>

text \<open>
  Both are built into the host. They are modelled after the forgiving-base64 encode and
  decode of the WHATWG Infra standard, which the HTML standard prescribes for them:
  \<^verbatim>\<open>btoa\<close> throws on a code unit above 255 and encodes with padding; \<^verbatim>\<open>atob\<close> removes
  ASCII whitespace, removes one or two trailing \<^verbatim>\<open>=\<close> when the length is a multiple of
  four, throws when the remaining length is 1 modulo 4 or a character is outside the
  alphabet, and otherwise decodes, dropping the unused low bits of a final group.
\<close>

definition b64_alphabet :: js_string where
  "b64_alphabet = js ''ABCDEFGHIJKLMNOPQRSTUVWXYZabcdefghijklmnopqrstuvwxyz0123456789+/''"

definition b64_pad :: code_unit where
  "b64_pad = 0x3D"

definition sextet_char :: "nat \<Rightarrow> code_unit" where
  "sextet_char n = b64_alphabet ! n"

fun b64_encode :: "nat list \<Rightarrow> js_string" where
  "b64_encode (x # y # z # rest) =
     [sextet_char (x div 4), sextet_char ((x mod 4) * 16 + y div 16),
      sextet_char ((y mod 16) * 4 + z div 64), sextet_char (z mod 64)] @ b64_encode rest"
| "b64_encode [x, y] =
     [sextet_char (x div 4), sextet_char ((x mod 4) * 16 + y div 16),
      sextet_char ((y mod 16) * 4), b64_pad]"
| "b64_encode [x] =
     [sextet_char (x div 4), sextet_char ((x mod 4) * 16), b64_pad, b64_pad]"
| "b64_encode [] = []"

definition btoa :: "js_string \<Rightarrow> js_error + js_string" where
  "btoa s = (if list_all (\<lambda>c. c \<le> 0xFF) s then Inr (b64_encode (map unat s))
             else Inl InvalidCharacterError)"

fun index_of :: "'a \<Rightarrow> 'a list \<Rightarrow> nat option" where
  "index_of c [] = None"
| "index_of c (a # as) = (if a = c then Some 0 else map_option Suc (index_of c as))"

definition in_alphabet :: "code_unit \<Rightarrow> bool" where
  "in_alphabet c = (index_of c b64_alphabet \<noteq> None)"

definition sextet_of :: "code_unit \<Rightarrow> nat" where
  "sextet_of c = (case index_of c b64_alphabet of Some n \<Rightarrow> n | None \<Rightarrow> 0)"

fun b64_decode :: "nat list \<Rightarrow> nat list" where
  "b64_decode (a # b # c # d # rest) =
     [a * 4 + b div 16, (b mod 16) * 16 + c div 4, (c mod 4) * 64 + d] @ b64_decode rest"
| "b64_decode [a, b, c] = [a * 4 + b div 16, (b mod 16) * 16 + c div 4]"
| "b64_decode [a, b] = [a * 4 + b div 16]"
| "b64_decode [a] = []"
| "b64_decode [] = []"

definition is_ascii_whitespace :: "code_unit \<Rightarrow> bool" where
  "is_ascii_whitespace c = (c = 0x09 \<or> c = 0x0A \<or> c = 0x0C \<or> c = 0x0D \<or> c = 0x20)"

definition strip_padding :: "js_string \<Rightarrow> js_string" where
  "strip_padding d =
     (case rev d of
        p # q # r \<Rightarrow> if p = b64_pad \<and> q = b64_pad then rev r
                     else if p = b64_pad then rev (q # r) else d
      | [p] \<Rightarrow> if p = b64_pad then [] else d
      | [] \<Rightarrow> [])"

definition atob :: "js_string \<Rightarrow> js_error + js_string" where
  "atob data =
     (let d0 = filter (\<lambda>c. \<not> is_ascii_whitespace c) data;
          d = (if length d0 mod 4 = 0 then strip_padding d0 else d0)
      in if length d mod 4 = 1 then Inl InvalidCharacterError
         else if list_all in_alphabet d
              then Inr (map of_nat (b64_decode (map sextet_of d)))
              else Inl InvalidCharacterError)"

section \<open>Binary codec of the service\<close>

definition fromCharCode :: "u8 list \<Rightarrow> js_string" where
  "fromCharCode cs = map ucast cs"

definition subarray :: "u8 list \<Rightarrow> nat \<Rightarrow> nat \<Rightarrow> u8 list" where
  "subarray bytes b e = take (e - b) (drop b bytes)"

definition chunkSize :: nat where
  "chunkSize = 8192"

function binary_loop :: "u8 list \<Rightarrow> nat \<Rightarrow> js_string \<Rightarrow> js_string" where
  "binary_loop bytes i binary =
     (if i < length bytes
      then binary_loop bytes (i + chunkSize)
             (binary @ fromCharCode (subarray bytes i (i + chunkSize)))
      else binary)"
  by pat_completeness auto
termination
  by (relation "measure (\<lambda>(bytes, i, binary). length bytes - i)") (auto simp: chunkSize_def)

definition priv_arrayBufferToBase64 :: "u8 list \<Rightarrow> js_error + js_string" where
  "priv_arrayBufferToBase64 buffer = btoa (binary_loop buffer 0 [])"

definition comma :: code_unit where
  "comma = 0x2C"

fun split_on :: "'a \<Rightarrow> 'a list \<Rightarrow> 'a list list" where
  "split_on sep [] = [[]]"
| "split_on sep (c # cs) =
     (if c = sep then [] # split_on sep cs
      else (case split_on sep cs of p # ps \<Rightarrow> (c # p) # ps | [] \<Rightarrow> [[c]]))"

definition priv_base64ToArrayBuffer :: "js_string \<Rightarrow> js_error + u8 list" where
  "priv_base64ToArrayBuffer base64 =
     (let b64 = (if comma \<in> set base64 then split_on comma base64 ! 1 else base64)
      in case atob b64 of
           Inl e \<Rightarrow> Inl e
         | Inr binary \<Rightarrow> Inr (map ucast binary))"

section \<open>Records and payloads\<close>

datatype level = N5 | N4 | N3 | N2 | N1 | JFT | SEMUA

datatype file_type = PDF | URL | IMAGE | LAINNYA

datatype language = ID | JA | EN | BILINGUAL

text \<open>
  \<open>EbookMeta\<close> is \<^verbatim>\<open>Omit<UserEbook, 'id' | 'addedDate'>\<close>, the argument of \<^verbatim>\<open>addBook\<close>;
  \<^verbatim>\<open>UserEbook\<close> is that record extended by the two generated fields. The field \<^verbatim>\<open>id\<close>
  is \<open>id_book\<close>, since \<open>id\<close> is the identity function of HOL. An optional field
  (\<^verbatim>\<open>name?: T\<close>) is an option.
\<close>

record EbookMeta =
  title :: string
  author :: string
  description :: string
  level :: level
  category :: string
  coverEmoji :: string
  coverColor :: string
  fileType :: file_type
  sourceUrl :: "string option"
  fileName :: "string option"
  fileSize :: "int option"
  fileMimeType :: "string option"
  totalPages :: "int option"
  language :: language
  "notes" :: "string option"

record UserEbook = EbookMeta +
  id_book :: string
  addedDate :: string

text \<open>
  \<^verbatim>\<open>Partial<UserEbook>\<close>: every key may be missing (\<open>None\<close>). A present key carries a
  value of the field's type; for a key that is optional in \<^verbatim>\<open>UserEbook\<close> already, that
  value may be \<^verbatim>\<open>undefined\<close> (\<open>Some None\<close>).
\<close>

record UserEbookPartial =
  title_p :: "string option"
  author_p :: "string option"
  description_p :: "string option"
  level_p :: "level option"
  category_p :: "string option"
  coverEmoji_p :: "string option"
  coverColor_p :: "string option"
  fileType_p :: "file_type option"
  sourceUrl_p :: "string option option"
  fileName_p :: "string option option"
  fileSize_p :: "int option option"
  fileMimeType_p :: "string option option"
  totalPages_p :: "int option option"
  language_p :: "language option"
  notes_p :: "string option option"
  id_book_p :: "string option"
  addedDate_p :: "string option"

definition spread_field :: "'a \<Rightarrow> 'a option \<Rightarrow> 'a" where
  "spread_field old upd = (case upd of None \<Rightarrow> old | Some v \<Rightarrow> v)"

definition spread :: "UserEbook \<Rightarrow> UserEbookPartial \<Rightarrow> UserEbook" where
  \<comment> \<open>\<^verbatim>\<open>{ ...updated, ...updates }\<close>\<close>
  "spread b u =
     \<lparr>title = spread_field (title b) (title_p u),
      author = spread_field (author b) (author_p u),
      description = spread_field (description b) (description_p u),
      level = spread_field (level b) (level_p u),
      category = spread_field (category b) (category_p u),
      coverEmoji = spread_field (coverEmoji b) (coverEmoji_p u),
      coverColor = spread_field (coverColor b) (coverColor_p u),
      fileType = spread_field (fileType b) (fileType_p u),
      sourceUrl = spread_field (sourceUrl b) (sourceUrl_p u),
      fileName = spread_field (fileName b) (fileName_p u),
      fileSize = spread_field (fileSize b) (fileSize_p u),
      fileMimeType = spread_field (fileMimeType b) (fileMimeType_p u),
      totalPages = spread_field (totalPages b) (totalPages_p u),
      language = spread_field (language b) (language_p u),
      notes = spread_field (notes b) (notes_p u),
      id_book = spread_field (id_book b) (id_book_p u),
      addedDate = spread_field (addedDate b) (addedDate_p u)\<rparr>"

text \<open>
  A value whose run-time shape the code tests (\<^verbatim>\<open>instanceof ArrayBuffer\<close>,
  \<^verbatim>\<open>Array.isArray\<close>, \<^verbatim>\<open>typeof ... === 'string'\<close>): a binary buffer, an array of
  numbers, a string, or any other object (named by a handle).
\<close>

datatype js_data =
    ArrayBufferV "u8 list"
  | NumberArrayV "int list"
  | StringV js_string
  | OtherV nat

text \<open>
  \<^verbatim>\<open>StoredFileData\<close>. The interface declares \<^verbatim>\<open>data: ArrayBuffer\<close>; on the read paths
  the value is only cast to it (\<^verbatim>\<open>as ArrayBuffer\<close>), so there the field holds a \<^typ>\<open>js_data\<close>.
  The field \<^verbatim>\<open>id\<close> is \<open>id_file\<close>.
\<close>

record 'd StoredFileData =
  id_file :: string
  data :: 'd
  mimeType :: string

datatype data_url = DataUrl js_data string
  \<comment> \<open>what \<^verbatim>\<open>FileReader.readAsDataURL\<close> yields for a \<^verbatim>\<open>Blob\<close> of this part and type\<close>

definition DB_NAME :: string where "DB_NAME = ''javsensei-library''"
definition DB_VERSION :: nat where "DB_VERSION = 1"
definition BOOKS_STORE :: string where "BOOKS_STORE = ''books''"
definition FILES_STORE :: string where "FILES_STORE = ''files''"
definition META_KEY :: string where "META_KEY = ''library_meta''"
definition PREFS_BOOKS_KEY :: string where "PREFS_BOOKS_KEY = ''javsensei_library_books_v2''"
definition FILES_DIR :: string where "FILES_DIR = ''ebooks''"

section \<open>The service and the stores behind it\<close>

text \<open>
  The state is the service instance (\<open>books\<close>, \<open>isNative\<close>, whether \<open>db\<close> and the plugin
  objects are set) together with the stores it writes: the value under
  \<^verbatim>\<open>PREFS_BOOKS_KEY\<close> in Preferences, the value under \<^verbatim>\<open>META_KEY\<close> in localStorage (both
  are \<^verbatim>\<open>JSON.stringify\<close> of a book list, kept as the list), the files of the Filesystem
  plugin by path, and the two object stores of IndexedDB by key. \<open>calls\<close> records every
  call made to a store, in order.
\<close>

datatype io_call =
    PreferencesGet string
  | PreferencesSet string
  | LocalStorageGetItem string
  | LocalStorageSetItem string
  | FilesystemWriteFile string
  | FilesystemReadFile string
  | FilesystemDeleteFile string
  | IdbPut string string
  | IdbDelete string string
  | IdbGet string string

record LibraryService =
  books :: "UserEbook list"
  isNative :: bool
  db :: bool
  Preferences :: bool
  Filesystem :: bool
  Directory :: bool
  prefs_store :: "UserEbook list option"
  local_store :: "UserEbook list option"
  fs_store :: "string \<rightharpoonup> js_data"
  idb_books :: "string \<rightharpoonup> UserEbook"
  idb_files :: "string \<rightharpoonup> js_data StoredFileData"
  calls :: "io_call list"

text \<open>
  Whether a call to a store fails is outside the program: each operation takes the
  outcomes of the store calls it may make. Reading or deleting a file that does not
  exist fails by itself.
\<close>

record faults =
  preferences_get_fails :: bool
  preferences_set_fails :: bool
  localStorage_getItem_fails :: bool
  localStorage_setItem_fails :: bool
  writeFile_fails :: bool
  readFile_fails :: bool
  deleteFile_fails :: bool
  books_put_fails :: bool
  books_delete_fails :: bool
  files_put_fails :: bool
  files_get_fails :: bool
  files_delete_fails :: bool

definition called :: "io_call \<Rightarrow> LibraryService \<Rightarrow> LibraryService" where
  "called c s = s\<lparr>calls := calls s @ [c]\<rparr>"

fun findIndex :: "('a \<Rightarrow> bool) \<Rightarrow> 'a list \<Rightarrow> nat option" where
  "findIndex P [] = None"
| "findIndex P (x # xs) = (if P x then Some 0 else map_option Suc (findIndex P xs))"

definition or_pdf :: "string option \<Rightarrow> string" where
  \<comment> \<open>\<^verbatim>\<open>fileMimeType || 'application/pdf'\<close>: \<^verbatim>\<open>undefined\<close> and the empty string are falsy\<close>
  "or_pdf m = (case m of None \<Rightarrow> ''application/pdf''
               | Some t \<Rightarrow> if t = [] then ''application/pdf'' else t)"

subsection \<open>localStorage fallback\<close>

text \<open>
  The loaders hand the stored text to the host: \<^verbatim>\<open>JSON.parse\<close> reads it back, and
  \<^verbatim>\<open>Array.prototype.sort\<close> orders the result with the comparator
  \<^verbatim>\<open>(a, b) => new Date(b.addedDate).getTime() - new Date(a.addedDate).getTime()\<close>. What
  they return is the host's matter (a number may read back rounded; for a date the host
  cannot read the comparator yields \<^verbatim>\<open>NaN\<close> and the order is the engine's), so both are
  parameters: \<open>JSON_parse h bs\<close> is what the host parses from the text written for the list
  \<open>bs\<close>, and \<open>sort_by_addedDate h bs\<close> is what its sort with that comparator makes of \<open>bs\<close>.
\<close>

record host =
  JSON_parse :: "UserEbook list \<Rightarrow> UserEbook list"
  sort_by_addedDate :: "UserEbook list \<Rightarrow> UserEbook list"

definition priv_localStorageLoadBooks ::
  "host \<Rightarrow> faults \<Rightarrow> LibraryService \<Rightarrow> UserEbook list \<times> LibraryService" where
  "priv_localStorageLoadBooks h f s =
     (let s1 = called (LocalStorageGetItem META_KEY) s
      in if localStorage_getItem_fails f then ([], s1)
         else (case local_store s1 of
                 None \<Rightarrow> ([], s1)
               | Some bs \<Rightarrow> (JSON_parse h bs, s1)))"

definition priv_localStorageSaveBooks :: "faults \<Rightarrow> UserEbook list \<Rightarrow> LibraryService \<Rightarrow> LibraryService" where
  "priv_localStorageSaveBooks f bs s =
     (let s1 = called (LocalStorageSetItem META_KEY) s
      in if localStorage_setItem_fails f then s1 else s1\<lparr>local_store := Some bs\<rparr>)"

definition priv_localStorageSaveBook :: "faults \<Rightarrow> UserEbook \<Rightarrow> LibraryService \<Rightarrow> LibraryService" where
  "priv_localStorageSaveBook f book s =
     (let list = books s
      in priv_localStorageSaveBooks f
           (case findIndex (\<lambda>b. id_book b = id_book book) list of
              Some idx \<Rightarrow> list[idx := book]
            | None \<Rightarrow> book # list) s)"

subsection \<open>Native tier: Preferences and Filesystem\<close>

definition priv_nativeFilePath :: "string \<Rightarrow> string" where
  "priv_nativeFilePath bookId = FILES_DIR @ ''/'' @ bookId @ ''.bin''"

definition priv_nativeLoadBooks ::
  "host \<Rightarrow> faults \<Rightarrow> LibraryService \<Rightarrow> UserEbook list \<times> LibraryService" where
  "priv_nativeLoadBooks h f s =
     (if \<not> Preferences s then priv_localStorageLoadBooks h f s
      else let s1 = called (PreferencesGet PREFS_BOOKS_KEY) s
           in if preferences_get_fails f then ([], s1)
              else (case prefs_store s1 of
                      None \<Rightarrow> ([], s1)
                    | Some bs \<Rightarrow> (sort_by_addedDate h (JSON_parse h bs), s1)))"

definition priv_nativeSaveBooks :: "faults \<Rightarrow> UserEbook list \<Rightarrow> LibraryService \<Rightarrow> LibraryService" where
  "priv_nativeSaveBooks f bs s =
     (if \<not> Preferences s then priv_localStorageSaveBooks f bs s
      else let s1 = called (PreferencesSet PREFS_BOOKS_KEY) s
           in if preferences_set_fails f then priv_localStorageSaveBooks f bs s1
              else s1\<lparr>prefs_store := Some bs\<rparr>)"

definition priv_nativeSaveFile ::
  "faults \<Rightarrow> (u8 list) StoredFileData \<Rightarrow> LibraryService \<Rightarrow> (js_error + unit) \<times> LibraryService" where
  "priv_nativeSaveFile f file s =
     (if \<not> Filesystem s \<or> \<not> Directory s then (Inr (), s)
      else (case priv_arrayBufferToBase64 (data file) of
              Inl e \<Rightarrow> (Inl e, s)
            | Inr base64 \<Rightarrow>
                (let path = priv_nativeFilePath (id_file file);
                     s1 = called (FilesystemWriteFile path) s
                 in if writeFile_fails f then (Inl PluginError, s1)
                    else (Inr (), s1\<lparr>fs_store := (fs_store s1)(path \<mapsto> StringV base64)\<rparr>))))"

definition priv_nativeGetFile ::
  "faults \<Rightarrow> string \<Rightarrow> LibraryService \<Rightarrow> js_data StoredFileData option \<times> LibraryService" where
  "priv_nativeGetFile f bookId s =
     (if \<not> Filesystem s \<or> \<not> Directory s then (None, s)
      else let book = find (\<lambda>b. id_book b = bookId) (books s);
               mime = (case book of None \<Rightarrow> ''application/pdf''
                       | Some b \<Rightarrow> or_pdf (fileMimeType b));
               path = priv_nativeFilePath bookId;
               s1 = called (FilesystemReadFile path) s
           in if readFile_fails f then (None, s1)
              else (case fs_store s1 path of
                      None \<Rightarrow> (None, s1)
                    | Some (StringV text) \<Rightarrow>
                        (case priv_base64ToArrayBuffer text of
                           Inl e \<Rightarrow> (None, s1)
                         | Inr bytes \<Rightarrow>
                             (Some \<lparr>id_file = bookId, data = ArrayBufferV bytes, mimeType = mime\<rparr>, s1))
                    | Some raw \<Rightarrow>
                        (Some \<lparr>id_file = bookId, data = raw, mimeType = mime\<rparr>, s1)))"

definition priv_nativeDeleteFile :: "faults \<Rightarrow> string \<Rightarrow> LibraryService \<Rightarrow> LibraryService" where
  "priv_nativeDeleteFile f bookId s =
     (if \<not> Filesystem s \<or> \<not> Directory s then s
      else let path = priv_nativeFilePath bookId;
               s1 = called (FilesystemDeleteFile path) s
           in if deleteFile_fails f then s1
              else (case fs_store s1 path of
                      None \<Rightarrow> s1
                    | Some c \<Rightarrow> s1\<lparr>fs_store := (fs_store s1)(path := None)\<rparr>))"

subsection \<open>Web tier: IndexedDB\<close>

definition priv_idbSaveBook ::
  "faults \<Rightarrow> UserEbook \<Rightarrow> LibraryService \<Rightarrow> (js_error + unit) \<times> LibraryService" where
  "priv_idbSaveBook f book s =
     (if \<not> db s then (Inr (), priv_localStorageSaveBook f book s)
      else let s1 = called (IdbPut BOOKS_STORE (id_book book)) s
           in if books_put_fails f then (Inl IDBRequestError, s1)
              else (Inr (), s1\<lparr>idb_books := (idb_books s1)(id_book book \<mapsto> book)\<rparr>))"

definition priv_idbDeleteBook ::
  "faults \<Rightarrow> string \<Rightarrow> LibraryService \<Rightarrow> (js_error + unit) \<times> LibraryService" where
  "priv_idbDeleteBook f i s =
     (if \<not> db s then (Inr (), s)
      else let s1 = called (IdbDelete BOOKS_STORE i) s
           in if books_delete_fails f then (Inl IDBRequestError, s1)
              else (Inr (), s1\<lparr>idb_books := (idb_books s1)(i := None)\<rparr>))"

definition priv_idbSaveFile ::
  "faults \<Rightarrow> (u8 list) StoredFileData \<Rightarrow> LibraryService \<Rightarrow> (js_error + unit) \<times> LibraryService" where
  \<comment> \<open>\<^verbatim>\<open>Array.from(new Uint8Array(file.data))\<close> is the array of the bytes as numbers\<close>
  "priv_idbSaveFile f file s =
     (if \<not> db s then (Inr (), s)
      else let safe = \<lparr>id_file = id_file file, data = NumberArrayV (map uint (data file)),
                        mimeType = mimeType file\<rparr>;
               s1 = called (IdbPut FILES_STORE (id_file file)) s
           in if files_put_fails f then (Inl IDBRequestError, s1)
              else (Inr (), s1\<lparr>idb_files := (idb_files s1)(id_file file \<mapsto> safe)\<rparr>))"

definition priv_idbGetFile ::
  "faults \<Rightarrow> string \<Rightarrow> LibraryService \<Rightarrow>
   (js_error + js_data StoredFileData option) \<times> LibraryService" where
  \<comment> \<open>\<^verbatim>\<open>new Uint8Array(numbers)\<close> stores each number modulo 256\<close>
  "priv_idbGetFile f i s =
     (if \<not> db s then (Inr None, s)
      else let s1 = called (IdbGet FILES_STORE i) s
           in if files_get_fails f then (Inl IDBRequestError, s1)
              else (case idb_files s1 i of
                      None \<Rightarrow> (Inr None, s1)
                    | Some raw \<Rightarrow>
                        (let d = (case data raw of
                                    ArrayBufferV b \<Rightarrow> ArrayBufferV b
                                  | NumberArrayV ns \<Rightarrow> ArrayBufferV (map word_of_int ns)
                                  | other \<Rightarrow> other)
                         in (Inr (Some \<lparr>id_file = id_file raw, data = d,
                                        mimeType = mimeType raw\<rparr>), s1))))"

definition priv_idbDeleteFile ::
  "faults \<Rightarrow> string \<Rightarrow> LibraryService \<Rightarrow> (js_error + unit) \<times> LibraryService" where
  "priv_idbDeleteFile f i s =
     (if \<not> db s then (Inr (), s)
      else let s1 = called (IdbDelete FILES_STORE i) s
           in if files_delete_fails f then (Inl IDBRequestError, s1)
              else (Inr (), s1\<lparr>idb_files := (idb_files s1)(i := None)\<rparr>))"

subsection \<open>Routing\<close>

definition priv_saveBook ::
  "faults \<Rightarrow> UserEbook \<Rightarrow> LibraryService \<Rightarrow> (js_error + unit) \<times> LibraryService" where
  "priv_saveBook f book s =
     (if isNative s
      then (let current = books s;
                updated = (case findIndex (\<lambda>b. id_book b = id_book book) current of
                             Some idx \<Rightarrow> map (\<lambda>b. if id_book b = id_book book then book else b) current
                           | None \<Rightarrow> book # current)
            in (Inr (), priv_nativeSaveBooks f updated s))
      else priv_idbSaveBook f book s)"

definition priv_deleteBook ::
  "faults \<Rightarrow> string \<Rightarrow> LibraryService \<Rightarrow> (js_error + unit) \<times> LibraryService" where
  "priv_deleteBook f i s =
     (if isNative s
      then (Inr (), priv_nativeSaveBooks f (filter (\<lambda>b. id_book b \<noteq> i) (books s)) s)
      else priv_idbDeleteBook f i s)"

definition priv_saveFile ::
  "faults \<Rightarrow> (u8 list) StoredFileData \<Rightarrow> LibraryService \<Rightarrow> (js_error + unit) \<times> LibraryService" where
  "priv_saveFile f file s =
     (if isNative s then priv_nativeSaveFile f file s else priv_idbSaveFile f file s)"

definition priv_getFile ::
  "faults \<Rightarrow> string \<Rightarrow> LibraryService \<Rightarrow>
   (js_error + js_data StoredFileData option) \<times> LibraryService" where
  "priv_getFile f i s =
     (if isNative s
      then (case priv_nativeGetFile f i s of (r, s1) \<Rightarrow> (Inr r, s1))
      else priv_idbGetFile f i s)"

definition priv_deleteFile ::
  "faults \<Rightarrow> string \<Rightarrow> LibraryService \<Rightarrow> (js_error + unit) \<times> LibraryService" where
  "priv_deleteFile f i s =
     (if isNative s then (Inr (), priv_nativeDeleteFile f i s) else priv_idbDeleteFile f i s)"

subsection \<open>Public operations\<close>

text \<open>
  \<^verbatim>\<open>addBook\<close> reads the clock and the random generator: \<open>Date_now\<close> is the decimal text
  of \<^verbatim>\<open>Date.now()\<close>, \<open>random_suffix\<close> is \<^verbatim>\<open>Math.random().toString(36).slice(2, 7)\<close>, and
  \<open>today\<close> is \<^verbatim>\<open>new Date().toISOString().split('T')[0]\<close>.
\<close>

record moment =
  Date_now :: string
  random_suffix :: string
  today :: string

definition new_book :: "moment \<Rightarrow> EbookMeta \<Rightarrow> UserEbook" where
  "new_book m meta =
     EbookMeta.extend meta
       (UserEbook.fields (''book-'' @ Date_now m @ ''-'' @ random_suffix m) (today m))"

definition priv_arrayBufferToDataUrl :: "js_data \<Rightarrow> string \<Rightarrow> data_url" where
  "priv_arrayBufferToDataUrl buffer mime = DataUrl buffer mime"

definition addBook ::
  "faults \<Rightarrow> moment \<Rightarrow> EbookMeta \<Rightarrow> u8 list option \<Rightarrow> LibraryService \<Rightarrow>
   (js_error + UserEbook) \<times> LibraryService" where
  "addBook f m meta fileData s =
     (let book = new_book m meta
      in case priv_saveBook f book s of
           (Inl e, s1) \<Rightarrow> (Inl e, s1)
         | (Inr u, s1) \<Rightarrow>
             (case (case fileData of
                      None \<Rightarrow> (Inr (), s1)
                    | Some bytes \<Rightarrow>
                        if fileType book \<noteq> URL
                        then priv_saveFile f
                               \<lparr>id_file = id_book book, data = bytes,
                                mimeType = or_pdf (fileMimeType book)\<rparr> s1
                        else (Inr (), s1)) of
                (Inl e, s2) \<Rightarrow> (Inl e, s2)
              | (Inr u, s2) \<Rightarrow> (Inr book, s2\<lparr>books := book # books s2\<rparr>)))"

definition deleteBook ::
  "faults \<Rightarrow> string \<Rightarrow> LibraryService \<Rightarrow> (js_error + unit) \<times> LibraryService" where
  "deleteBook f i s =
     (case priv_deleteBook f i s of
        (Inl e, s1) \<Rightarrow> (Inl e, s1)
      | (Inr u, s1) \<Rightarrow>
          (case priv_deleteFile f i s1 of
             (Inl e, s2) \<Rightarrow> (Inl e, s2)
           | (Inr u, s2) \<Rightarrow>
               (Inr (), s2\<lparr>books := filter (\<lambda>b. id_book b \<noteq> i) (books s2)\<rparr>)))"

definition updateBook ::
  "faults \<Rightarrow> string \<Rightarrow> UserEbookPartial \<Rightarrow> LibraryService \<Rightarrow>
   (js_error + unit) \<times> LibraryService" where
  "updateBook f i updates s =
     (case find (\<lambda>b. id_book b = i) (books s) of
        None \<Rightarrow> (Inr (), s)
      | Some updated \<Rightarrow>
          (let newBook = spread updated updates
           in case priv_saveBook f newBook s of
                (Inl e, s1) \<Rightarrow> (Inl e, s1)
              | (Inr u, s1) \<Rightarrow>
                  (Inr (), s1\<lparr>books := map (\<lambda>b. if id_book b = i then newBook else b)
                                            (books s1)\<rparr>)))"

definition getFileDataUrl ::
  "faults \<Rightarrow> string \<Rightarrow> LibraryService \<Rightarrow> data_url option \<times> LibraryService" where
  "getFileDataUrl f bookId s =
     (case priv_getFile f bookId s of
        (Inl e, s1) \<Rightarrow> (None, s1)
      | (Inr None, s1) \<Rightarrow> (None, s1)
      | (Inr (Some stored), s1) \<Rightarrow>
          (Some (priv_arrayBufferToDataUrl (data stored) (mimeType stored)), s1))"

section \<open>Auxiliary notions\<close>

text \<open>
  The sextets of an encoding without its padding, and the number of padding characters.
\<close>

fun b64_sextets :: "nat list \<Rightarrow> nat list" where
  "b64_sextets (x # y # z # rest) =
     [x div 4, (x mod 4) * 16 + y div 16, (y mod 16) * 4 + z div 64, z mod 64] @ b64_sextets rest"
| "b64_sextets [x, y] = [x div 4, (x mod 4) * 16 + y div 16, (y mod 16) * 4]"
| "b64_sextets [x] = [x div 4, (x mod 4) * 16]"
| "b64_sextets [] = []"

fun b64_padding :: "'a list \<Rightarrow> nat" where
  "b64_padding (x # y # z # rest) = b64_padding rest"
| "b64_padding [x, y] = 1"
| "b64_padding [x] = 2"
| "b64_padding [] = 0"

text \<open>
  The decoder without the test for a comma, and the text after the first comma: the
  two notions in which the specification describes the tolerant decoder.
\<close>

definition decode_bare :: "js_string \<Rightarrow> js_error + u8 list" where
  "decode_bare b64 = (case atob b64 of Inl e \<Rightarrow> Inl e | Inr binary \<Rightarrow> Inr (map ucast binary))"

definition after_first_comma :: "js_string \<Rightarrow> js_string" where
  "after_first_comma t = tl (dropWhile (\<lambda>c. c \<noteq> comma) t)"

text \<open>
  A call that writes a payload, and the calls an operation made (those added to
  \<open>calls\<close> between the state before and the state after).
\<close>

fun payload_write :: "io_call \<Rightarrow> bool" where
  "payload_write (FilesystemWriteFile path) = True"
| "payload_write (IdbPut store key) = (store = FILES_STORE)"
| "payload_write c = False"

definition calls_during :: "LibraryService \<Rightarrow> LibraryService \<Rightarrow> io_call list" where
  "calls_during s s' = drop (length (calls s)) (calls s')"

definition payload_written :: "LibraryService \<Rightarrow> LibraryService \<Rightarrow> bool" where
  "payload_written s s' = list_ex payload_write (calls_during s s')"

text \<open>The tier's payload store is there: the Filesystem plugin, or the database.\<close>

definition can_store_payload :: "LibraryService \<Rightarrow> bool" where
  "can_store_payload s = (if isNative s then Filesystem s \<and> Directory s else db s)"

text \<open>
  Descending order by \<^verbatim>\<open>addedDate\<close>, where \<open>getTime d\<close> is the time value
  \<^verbatim>\<open>new Date(d).getTime()\<close> of a date the host reads. A date it cannot read (\<^verbatim>\<open>NaN\<close>)
  has no place in this order; the notion is used for caches whose dates are read.
\<close>

definition sortedDesc :: "(string \<Rightarrow> int) \<Rightarrow> UserEbook list \<Rightarrow> bool" where
  "sortedDesc getTime bs =
     sorted_wrt (\<lambda>a b. getTime (addedDate b) \<le> getTime (addedDate a)) bs"

text \<open>Sequences of calls to the three mutating operations.\<close>

datatype request =
    Add faults moment EbookMeta "u8 list option"
  | Delete faults string
  | Update faults string UserEbookPartial

fun perform :: "request \<Rightarrow> LibraryService \<Rightarrow> LibraryService" where
  "perform (Add f m meta fileData) s = snd (addBook f m meta fileData s)"
| "perform (Delete f i) s = snd (deleteBook f i s)"
| "perform (Update f i updates) s = snd (updateBook f i updates s)"

fun run :: "request list \<Rightarrow> LibraryService \<Rightarrow> LibraryService" where
  "run [] s = s"
| "run (r # rs) s = run rs (perform r s)"

text \<open>
  A sequence of calls in which the clock does not run backwards, every generated id is
  new, and no update carries \<^verbatim>\<open>id\<close> or \<^verbatim>\<open>addedDate\<close>: \<open>t\<close> is the latest date so far and
  \<open>used\<close> are the ids given out so far.
\<close>

fun orderly :: "(string \<Rightarrow> int) \<Rightarrow> int \<Rightarrow> string list \<Rightarrow> request list \<Rightarrow> bool" where
  "orderly getTime t used [] = True"
| "orderly getTime t used (Add f m meta fileData # rs) =
     (if t \<le> getTime (today m) \<and> id_book (new_book m meta) \<notin> set used
      then orderly getTime (getTime (today m)) (id_book (new_book m meta) # used) rs
      else False)"
| "orderly getTime t used (Delete f i # rs) = orderly getTime t used rs"
| "orderly getTime t used (Update f i updates # rs) =
     (if id_book_p updates = None \<and> addedDate_p updates = None
      then orderly getTime t used rs else False)"

definition dated_until :: "(string \<Rightarrow> int) \<Rightarrow> int \<Rightarrow> UserEbook list \<Rightarrow> bool" where
  "dated_until getTime t bs = list_all (\<lambda>b. getTime (addedDate b) \<le> t) bs"

definition ids_within :: "string list \<Rightarrow> UserEbook list \<Rightarrow> bool" where
  "ids_within used bs = (distinct (map id_book bs) \<and> list_all (\<lambda>b. id_book b \<in> set used) bs)"

text \<open>
  The ids in order of arrival, the newest first: every id that a call of \<^verbatim>\<open>addBook\<close> in
  the sequence generates is put in front of the ids \<open>ids\<close> known before. A cache is in
  arrival order when its ids are those ids of such a list (which has no id twice) that
  are still cached, in the order of the list.
\<close>

fun arrivals :: "request list \<Rightarrow> string list \<Rightarrow> string list" where
  "arrivals [] ids = ids"
| "arrivals (Add f m meta fileData # rs) ids = arrivals rs (id_book (new_book m meta) # ids)"
| "arrivals (Delete f i # rs) ids = arrivals rs ids"
| "arrivals (Update f i updates # rs) ids = arrivals rs ids"

definition in_arrival_order :: "string list \<Rightarrow> UserEbook list \<Rightarrow> bool" where
  "in_arrival_order ids bs =
     (distinct ids \<and> map id_book bs = filter (\<lambda>i. i \<in> set (map id_book bs)) ids)"

definition cache_inv :: "(string \<Rightarrow> int) \<Rightarrow> int \<Rightarrow> string list \<Rightarrow> UserEbook list \<Rightarrow> bool" where
  "cache_inv getTime t used bs =
     (sortedDesc getTime bs \<and> dated_until getTime t bs \<and> ids_within used bs)"

text \<open>
  The time value of a calendar date \<^verbatim>\<open>YYYY-MM-DD\<close>, the form \<^verbatim>\<open>addBook\<close> writes: the
  milliseconds from the epoch to that day's midnight in UTC, by the usual count of days
  in the proleptic Gregorian calendar. It stands for the host's date parser in the
  examples.
\<close>

definition decimal :: "string \<Rightarrow> int" where
  "decimal ds = foldl (\<lambda>n c. 10 * n + (of_char c - 48)) 0 ds"

definition days_from_civil :: "int \<Rightarrow> int \<Rightarrow> int \<Rightarrow> int" where
  "days_from_civil y m d =
     (let y' = (if m \<le> 2 then y - 1 else y);
          era = y' div 400;
          yoe = y' - era * 400;
          doy = (153 * (if 2 < m then m - 3 else m + 9) + 2) div 5 + d - 1;
          doe = yoe * 365 + yoe div 4 - yoe div 100 + doy
      in era * 146097 + doe - 719468)"

definition iso_date_ms :: "string \<Rightarrow> int" where
  "iso_date_ms d =
     86400000 * days_from_civil (decimal (take 4 d)) (decimal (take 2 (drop 5 d)))
                  (decimal (take 2 (drop 8 d)))"

subsection \<open>Sample values\<close>

text \<open>
  A host as it behaves on lists whose numbers are integers and whose dates are calendar
  dates: the text reads back as the list written, and the stable sort orders by the
  time value.
\<close>

definition calendar_host :: host where
  "calendar_host =
     \<lparr>JSON_parse = (\<lambda>bs. bs),
      sort_by_addedDate = sort_key (\<lambda>b. - iso_date_ms (addedDate b))\<rparr>"

definition no_faults :: faults where
  "no_faults =
     \<lparr>preferences_get_fails = False, preferences_set_fails = False,
      localStorage_getItem_fails = False, localStorage_setItem_fails = False,
      writeFile_fails = False, readFile_fails = False, deleteFile_fails = False,
      books_put_fails = False, books_delete_fails = False, files_put_fails = False,
      files_get_fails = False, files_delete_fails = False\<rparr>"

definition no_updates :: UserEbookPartial where
  "no_updates =
     \<lparr>title_p = None, author_p = None, description_p = None, level_p = None,
      category_p = None, coverEmoji_p = None, coverColor_p = None, fileType_p = None,
      sourceUrl_p = None, fileName_p = None, fileSize_p = None, fileMimeType_p = None,
      totalPages_p = None, language_p = None, notes_p = None, id_book_p = None,
      addedDate_p = None\<rparr>"

definition pdf_meta :: EbookMeta where
  "pdf_meta =
     \<lparr>title = ''T'', author = ''A'', description = ''d'', level = N5,
      category = ''grammar'', coverEmoji = ''*'', coverColor = ''#fff'', fileType = PDF,
      sourceUrl = None, fileName = Some ''t.pdf'', fileSize = Some 4,
      fileMimeType = Some ''application/pdf'', totalPages = None, language = JA,
      notes = None\<rparr>"

definition url_meta :: EbookMeta where
  "url_meta = pdf_meta\<lparr>fileType := URL, sourceUrl := Some ''https://x'', fileName := None,
                        fileSize := None, fileMimeType := None\<rparr>"

definition book_of :: "string \<Rightarrow> string \<Rightarrow> UserEbook" where
  "book_of i d = EbookMeta.extend pdf_meta (UserEbook.fields i d)"

definition at_moment :: "string \<Rightarrow> moment" where
  "at_moment d = \<lparr>Date_now = ''1700000000000'', random_suffix = ''k3x9q'', today = d\<rparr>"

definition web_service :: LibraryService where
  "web_service =
     \<lparr>books = [], isNative = False, db = True, Preferences = False, Filesystem = False,
      Directory = False, prefs_store = None, local_store = None, fs_store = Map.empty,
      idb_books = Map.empty, idb_files = Map.empty, calls = []\<rparr>"

definition native_service :: LibraryService where
  "native_service =
     \<lparr>books = [], isNative = True, db = False, Preferences = True, Filesystem = True,
      Directory = True, prefs_store = None, local_store = None, fs_store = Map.empty,
      idb_books = Map.empty, idb_files = Map.empty, calls = []\<rparr>"

definition pdf_bytes :: "u8 list" where
  "pdf_bytes = [0x25, 0x50, 0x44, 0x46]"

section \<open>Properties of the codec\<close>


declare binary_loop.simps [simp del]

lemma binary_loop_eq: "binary_loop bytes i binary = binary @ fromCharCode (drop i bytes)"
proof (induction bytes i binary rule: binary_loop.induct)
  case (1 bytes i binary)
  show ?case
  proof (cases "i < length bytes")
    case True
    have "take chunkSize (drop i bytes) @ drop (i + chunkSize) bytes = drop i bytes"
      by (metis add.commute append_take_drop_id drop_drop)
    then have "fromCharCode (subarray bytes i (i + chunkSize)) @ fromCharCode (drop (i + chunkSize) bytes)
        = fromCharCode (drop i bytes)"
      by (simp add: fromCharCode_def subarray_def flip: map_append)
    with True 1 show ?thesis
      by (subst binary_loop.simps) simp
  next
    case False
    then show ?thesis by (subst binary_loop.simps) (simp add: fromCharCode_def)
  qed
qed

lemma unat_byte_less: "unat (b :: u8) < 256"
  using unsigned_less [of b, where 'a = nat] by simp

lemma unat_ucast_byte: "unat (ucast (b :: u8) :: code_unit) = unat b"
proof -
  have "unat b < 2 ^ 16" using unat_byte_less [of b] by simp
  then show ?thesis by (simp add: unsigned_ucast_eq take_bit_nat_eq_self)
qed

lemma ucast_ucast_byte: "ucast (ucast b :: code_unit) = (b :: u8)"
  by (simp add: ucast_up_ucast_id is_up)

lemma unat_fromCharCode: "map unat (fromCharCode bs) = map unat bs"
  by (simp add: fromCharCode_def unat_ucast_byte)

lemma fromCharCode_latin1: "list_all (\<lambda>c. c \<le> 0xFF) (fromCharCode bs)"
proof -
  have "(ucast (b :: u8) :: code_unit) \<le> 0xFF" for b
    using unat_byte_less [of b] by (simp add: word_le_nat_alt unat_ucast_byte)
  then show ?thesis by (simp add: fromCharCode_def list_all_iff)
qed

lemma byte_roundtrip: "map ucast (map (of_nat :: nat \<Rightarrow> code_unit) (map unat (bs :: u8 list))) = bs"
  by (induction bs) (simp_all add: ucast_ucast_byte)


lemma b64_encode_split:
  "b64_encode bs = map sextet_char (b64_sextets bs) @ replicate (b64_padding bs) b64_pad"
  by (induction bs rule: b64_encode.induct) (simp_all add: numeral_2_eq_2)

lemma b64_padding_le: "b64_padding bs \<le> 2"
  by (induction bs rule: b64_padding.induct) simp_all

lemma length_b64_sextets: "length (b64_sextets bs) mod 4 \<noteq> 1"
  by (induction bs rule: b64_sextets.induct) simp_all

lemma length_b64_encode: "length (b64_encode bs) mod 4 = 0"
  by (induction bs rule: b64_encode.induct) simp_all

lemma index_of_None: "index_of c xs = None \<longleftrightarrow> c \<notin> set xs"
  by (induction xs) auto

lemma index_of_nth: "distinct xs \<Longrightarrow> n < length xs \<Longrightarrow> index_of (xs ! n) xs = Some n"
proof (induction xs arbitrary: n)
  case Nil
  then show ?case by simp
next
  case (Cons a xs)
  then show ?case by (cases n) auto
qed

lemma distinct_b64_alphabet: "distinct b64_alphabet"
  by (simp add: b64_alphabet_def js_def)

lemma length_b64_alphabet: "length b64_alphabet = 64"
  by (simp add: b64_alphabet_def js_def)

lemma sextet_of_char: "n < 64 \<Longrightarrow> sextet_of (sextet_char n) = n"
  by (simp add: sextet_of_def sextet_char_def index_of_nth distinct_b64_alphabet length_b64_alphabet)

lemma in_alphabet_char: "n < 64 \<Longrightarrow> in_alphabet (sextet_char n)"
  by (simp add: in_alphabet_def sextet_char_def index_of_nth distinct_b64_alphabet length_b64_alphabet)

lemma sextet_group_bound:
  fixes x y z :: nat
  assumes "x < 256" "y < 256" "z < 256"
  shows "x div 4 < 64" "(x mod 4) * 16 + y div 16 < 64" "(y mod 16) * 4 + z div 64 < 64"
    "z mod 64 < 64" "(y mod 16) * 4 < 64" "(x mod 4) * 16 < 64"
  using assms by auto

lemma b64_sextets_bound: "list_all (\<lambda>b. b < 256) bs \<Longrightarrow> list_all (\<lambda>n. n < 64) (b64_sextets bs)"
proof (induction bs rule: b64_sextets.induct)
  case (1 x y z rest)
  then show ?case using sextet_group_bound [of x y z] by simp
next
  case (2 x y)
  then show ?case using sextet_group_bound [of x y 0] by simp
next
  case (3 x)
  then show ?case using sextet_group_bound [of x 0 0] by simp
next
  case 4
  then show ?case by simp
qed

lemma decode_first: "y < 256 \<Longrightarrow> x div 4 * 4 + ((x mod 4) * 16 + y div 16) div 16 = (x::nat)"
  by auto

lemma decode_second:
  "y < 256 \<Longrightarrow> z < 256 \<Longrightarrow>
   (((x mod 4) * 16 + y div 16) mod 16) * 16 + ((y mod 16) * 4 + z div 64) div 4 = (y::nat)"
  by auto

lemma decode_third: "z < 256 \<Longrightarrow> (((y mod 16) * 4 + z div 64) mod 4) * 64 + z mod 64 = (z::nat)"
  by auto

lemma decode_second_last:
  "y < 256 \<Longrightarrow> (((x mod 4) * 16 + y div 16) mod 16) * 16 + ((y mod 16) * 4) div 4 = (y::nat)"
  by auto

lemma decode_first_last: "x div 4 * 4 + ((x mod 4) * 16) div 16 = (x::nat)"
  by auto

lemma b64_decode_sextets: "list_all (\<lambda>b. b < 256) bs \<Longrightarrow> b64_decode (b64_sextets bs) = bs"
proof (induction bs rule: b64_sextets.induct)
  case (1 x y z rest)
  then have "y < 256" "z < 256" and rest: "b64_decode (b64_sextets rest) = rest" by simp_all
  from decode_first [OF this(1), of x] decode_second [OF this(1,2), of x] decode_third [OF this(2), of y] rest
  show ?case
    by (simp only: b64_sextets.simps b64_decode.simps append_Cons append_Nil)
next
  case (2 x y)
  then have "y < 256" by simp
  from decode_first [OF this, of x] decode_second_last [OF this, of x] show ?case
    by (simp only: b64_sextets.simps b64_decode.simps)
next
  case (3 x)
  from decode_first_last [of x] show ?case
    by (simp only: b64_sextets.simps b64_decode.simps) 
next
  case 4
  then show ?case by simp
qed

lemma sextet_of_chars:
  "list_all (\<lambda>n. n < 64) ns \<Longrightarrow> map sextet_of (map sextet_char ns) = ns"
  by (induction ns) (simp_all add: sextet_of_char)

lemma pad_not_in_alphabet: "\<not> in_alphabet b64_pad"
  by (simp add: in_alphabet_def b64_alphabet_def js_def b64_pad_def)

lemma comma_not_in_alphabet: "\<not> in_alphabet comma"
  by (simp add: in_alphabet_def b64_alphabet_def js_def comma_def)

lemma whitespace_not_in_alphabet: "is_ascii_whitespace c \<Longrightarrow> \<not> in_alphabet c"
  unfolding is_ascii_whitespace_def
  by (elim disjE) (simp_all add: in_alphabet_def b64_alphabet_def js_def)

lemma strip_padding_append:
  assumes "list_all in_alphabet xs" and "k \<le> 2"
  shows "strip_padding (xs @ replicate k b64_pad) = xs"
proof -
  have last: "hd (rev xs) \<noteq> b64_pad" if "xs \<noteq> []"
  proof -
    have "last xs \<in> set xs" using that by simp
    then have "in_alphabet (last xs)" using assms(1) by (simp add: list_all_iff)
    then show ?thesis using that pad_not_in_alphabet by (auto simp: hd_rev)
  qed
  consider "k = 0" | "k = 1" | "k = 2" using assms(2) by linarith
  then show ?thesis
  proof cases
    case 1
    show ?thesis
    proof (cases "rev xs")
      case Nil
      then show ?thesis using 1 by (simp add: strip_padding_def)
    next
      case (Cons p r)
      then have "p \<noteq> b64_pad" using last by auto
      then show ?thesis using 1 Cons by (cases r) (simp_all add: strip_padding_def)
    qed
  next
    case 2
    show ?thesis
    proof (cases "rev xs")
      case Nil
      then show ?thesis using 2 by (simp add: strip_padding_def)
    next
      case (Cons p r)
      then have "p \<noteq> b64_pad" using last by auto
      moreover have "xs = rev (p # r)" using Cons by (metis rev_rev_ident)
      ultimately show ?thesis using 2 Cons by (simp add: strip_padding_def)
    qed
  next
    case 3
    then have "rev (xs @ replicate k b64_pad) = b64_pad # b64_pad # rev xs"
      by (simp add: numeral_2_eq_2)
    then show ?thesis by (simp add: strip_padding_def)
  qed
qed

lemma atob_b64_encode:
  assumes "list_all (\<lambda>b. b < 256) bs"
  shows "atob (b64_encode bs) = Inr (map of_nat bs)"
proof -
  let ?body = "map sextet_char (b64_sextets bs)"
  have small: "list_all (\<lambda>n. n < 64) (b64_sextets bs)"
    using assms by (rule b64_sextets_bound)
  have alpha: "list_all in_alphabet ?body"
    using small by (simp add: list_all_iff in_alphabet_char)
  have enc_alpha_or_pad: "\<not> is_ascii_whitespace c" if "c \<in> set (b64_encode bs)" for c
  proof -
    from that have "in_alphabet c \<or> c = b64_pad"
      using alpha by (auto simp: b64_encode_split list_all_iff)
    then show ?thesis
      using whitespace_not_in_alphabet [of c] by (auto simp: is_ascii_whitespace_def b64_pad_def)
  qed
  then have nows: "filter (\<lambda>c. \<not> is_ascii_whitespace c) (b64_encode bs) = b64_encode bs"
    by (simp add: filter_id_conv)
  have strip: "strip_padding (b64_encode bs) = ?body"
    unfolding b64_encode_split using alpha b64_padding_le by (rule strip_padding_append)
  have len: "length ?body mod 4 \<noteq> 1"
    using length_b64_sextets [of bs] by simp
  have sext: "map sextet_of ?body = b64_sextets bs"
    using small by (rule sextet_of_chars)
  show ?thesis
    using alpha len
    by (simp add: atob_def nows length_b64_encode strip sext b64_decode_sextets [OF assms]
        del: map_map)
qed

lemma no_comma_b64_encode:
  assumes "list_all (\<lambda>b. b < 256) bs"
  shows "comma \<notin> set (b64_encode bs)"
proof
  assume "comma \<in> set (b64_encode bs)"
  then have "comma \<in> set (map sextet_char (b64_sextets bs)) \<or> comma = b64_pad"
    by (auto simp: b64_encode_split)
  moreover have "list_all in_alphabet (map sextet_char (b64_sextets bs))"
    using b64_sextets_bound [OF assms] by (simp add: list_all_iff in_alphabet_char)
  ultimately show False
    using comma_not_in_alphabet by (auto simp: list_all_iff comma_def b64_pad_def)
qed


text \<open>
  C1. Encoding and decoding are exact inverses: for every byte sequence \<open>b\<close> (of any
  length, the empty one included, with no restriction on the bytes), the encoder, which
  builds the binary string in chunks of 8192 bytes, returns a text, and decoding that
  text returns exactly \<open>b\<close>.
\<close>

theorem C1_codec_roundtrip:
  "\<exists>text. priv_arrayBufferToBase64 b = Inr text \<and> priv_base64ToArrayBuffer text = Inr b"
proof -
  have bytes: "list_all (\<lambda>b. b < 256) (map unat b)"
    by (simp add: list_all_iff unat_byte_less)
  have enc: "priv_arrayBufferToBase64 b = Inr (b64_encode (map unat b))"
    by (simp add: priv_arrayBufferToBase64_def binary_loop_eq btoa_def fromCharCode_latin1
        unat_fromCharCode)
  have "priv_base64ToArrayBuffer (b64_encode (map unat b)) = Inr b"
    using no_comma_b64_encode [OF bytes]
    by (simp add: priv_base64ToArrayBuffer_def atob_b64_encode [OF bytes] byte_roundtrip
        del: map_map)
  with enc show ?thesis by simp
qed

subsection \<open>The tolerant decoder\<close>


lemma priv_base64ToArrayBuffer_bare:
  "priv_base64ToArrayBuffer t = decode_bare (if comma \<in> set t then split_on comma t ! 1 else t)"
  by (simp add: priv_base64ToArrayBuffer_def decode_bare_def)

lemma split_on_not_Nil: "split_on sep t \<noteq> []"
  by (induction t) (simp_all split: list.splits)

lemma hd_split_on: "hd (split_on sep t) = takeWhile (\<lambda>c. c \<noteq> sep) t"
proof (induction t)
  case Nil
  then show ?case by simp
next
  case (Cons c cs)
  then show ?case using split_on_not_Nil [of sep cs]
    by (cases "split_on sep cs") simp_all
qed

lemma split_on_second:
  "sep \<in> set t \<Longrightarrow> split_on sep t ! 1 = takeWhile (\<lambda>c. c \<noteq> sep) (tl (dropWhile (\<lambda>c. c \<noteq> sep) t))"
proof (induction t)
  case Nil
  then show ?case by simp
next
  case (Cons c cs)
  show ?case
  proof (cases "c = sep")
    case True
    have "split_on sep cs ! 0 = hd (split_on sep cs)"
      using split_on_not_Nil [of sep cs] by (simp add: hd_conv_nth)
    then show ?thesis using True by (simp add: hd_split_on)
  next
    case False
    then have "sep \<in> set cs" using Cons.prems by auto
    then show ?thesis using False Cons.IH split_on_not_Nil [of sep cs]
      by (cases "split_on sep cs") simp_all
  qed
qed

lemma takeWhile_all: "x \<notin> set r \<Longrightarrow> takeWhile (\<lambda>c. c \<noteq> x) r = r"
  by (induction r) auto

text \<open>
  C9 (as amended). The decoder accepts a bare encoded text and a prefixed one. A text
  without a comma is decoded whole. A text with a comma is decoded from its second
  comma-separated field (\<^verbatim>\<open>split(',')[1]\<close>): what stands between the first comma and
  the next one, or the end of the text. With exactly one comma, this is everything
  after that comma.
\<close>

theorem C9_decoder_takes_second_field:
  "(comma \<notin> set t \<longrightarrow> priv_base64ToArrayBuffer t = decode_bare t) \<and>
   (comma \<in> set t \<longrightarrow>
      priv_base64ToArrayBuffer t =
        decode_bare (takeWhile (\<lambda>c. c \<noteq> comma) (after_first_comma t))) \<and>
   (comma \<in> set t \<and> comma \<notin> set (after_first_comma t) \<longrightarrow>
      priv_base64ToArrayBuffer t = decode_bare (after_first_comma t))"
proof (cases "comma \<in> set t")
  case True
  then have second: "split_on comma t ! 1 = takeWhile (\<lambda>c. c \<noteq> comma) (after_first_comma t)"
    unfolding after_first_comma_def by (rule split_on_second)
  have "priv_base64ToArrayBuffer t = decode_bare (split_on comma t ! 1)"
    using True by (simp only: priv_base64ToArrayBuffer_bare if_True)
  then show ?thesis using True second by (simp add: takeWhile_all)
next
  case False
  then show ?thesis by (simp add: priv_base64ToArrayBuffer_bare)
qed

lemma b64_alphabet_codes:
  "b64_alphabet =
     [0x41, 0x42, 0x43, 0x44, 0x45, 0x46, 0x47, 0x48, 0x49, 0x4A, 0x4B, 0x4C,
      0x4D, 0x4E, 0x4F, 0x50, 0x51, 0x52, 0x53, 0x54, 0x55, 0x56, 0x57, 0x58,
      0x59, 0x5A, 0x61, 0x62, 0x63, 0x64, 0x65, 0x66, 0x67, 0x68, 0x69, 0x6A,
      0x6B, 0x6C, 0x6D, 0x6E, 0x6F, 0x70, 0x71, 0x72, 0x73, 0x74, 0x75, 0x76,
      0x77, 0x78, 0x79, 0x7A, 0x30, 0x31, 0x32, 0x33, 0x34, 0x35, 0x36, 0x37,
      0x38, 0x39, 0x2B, 0x2F]"
  by (simp add: b64_alphabet_def js_def)

lemmas codec_eval = priv_base64ToArrayBuffer_def decode_bare_def after_first_comma_def
  comma_def atob_def is_ascii_whitespace_def strip_padding_def in_alphabet_def b64_alphabet_codes
  sextet_of_def b64_pad_def Let_def pdf_bytes_def

lemma two_commas_text: "js ''A,QUJD,QUJD'' = [65, 44, 81, 85, 74, 68, 44, 81, 85, 74, 68]"
  by (simp add: js_def)

lemma prefixed_text: "js ''x;base64,JVBERg=='' =
    [120, 59, 98, 97, 115, 101, 54, 52, 44, 74, 86, 66, 69, 82, 103, 61, 61]"
  by (simp add: js_def)

theorem C9_decoder_takes_second_field_witness:
  "comma \<in> set (js ''x;base64,JVBERg=='') \<and>
   comma \<notin> set (after_first_comma (js ''x;base64,JVBERg=='')) \<and>
   priv_base64ToArrayBuffer (js ''x;base64,JVBERg=='') =
     decode_bare (after_first_comma (js ''x;base64,JVBERg=='')) \<and>
   decode_bare (after_first_comma (js ''x;base64,JVBERg=='')) = Inr pdf_bytes"
  using C9_decoder_takes_second_field [of "js ''x;base64,JVBERg==''"]
  unfolding prefixed_text by (simp add: codec_eval)

text \<open>
  With two commas the decoder does not work on everything after the first comma: that
  text, \<^verbatim>\<open>QUJD,QUJD\<close>, is not decodable, while the decoder returns the bytes of \<^verbatim>\<open>QUJD\<close>.
\<close>

theorem C9_first_comma_counterexample:
  "priv_base64ToArrayBuffer (js ''A,QUJD,QUJD'') \<noteq> decode_bare (after_first_comma (js ''A,QUJD,QUJD''))"
  unfolding two_commas_text by (simp add: codec_eval)

section \<open>Properties of the service\<close>

subsection \<open>What the drivers leave alone\<close>

lemma called_fields [simp]:
  "books (called c s) = books s" "isNative (called c s) = isNative s" "db (called c s) = db s"
  "Preferences (called c s) = Preferences s" "Filesystem (called c s) = Filesystem s"
  "Directory (called c s) = Directory s" "prefs_store (called c s) = prefs_store s"
  "local_store (called c s) = local_store s" "fs_store (called c s) = fs_store s"
  "idb_books (called c s) = idb_books s" "idb_files (called c s) = idb_files s"
  "calls (called c s) = calls s @ [c]"
  by (simp_all add: called_def)

lemma localStorageSaveBooks_frame [simp]:
  "books (priv_localStorageSaveBooks f bs s) = books s"
  "isNative (priv_localStorageSaveBooks f bs s) = isNative s"
  "db (priv_localStorageSaveBooks f bs s) = db s"
  "Preferences (priv_localStorageSaveBooks f bs s) = Preferences s"
  "Filesystem (priv_localStorageSaveBooks f bs s) = Filesystem s"
  "Directory (priv_localStorageSaveBooks f bs s) = Directory s"
  "prefs_store (priv_localStorageSaveBooks f bs s) = prefs_store s"
  "fs_store (priv_localStorageSaveBooks f bs s) = fs_store s"
  "idb_books (priv_localStorageSaveBooks f bs s) = idb_books s"
  "idb_files (priv_localStorageSaveBooks f bs s) = idb_files s"
  "calls (priv_localStorageSaveBooks f bs s) = calls s @ [LocalStorageSetItem META_KEY]"
  by (simp_all add: priv_localStorageSaveBooks_def Let_def)

lemma nativeSaveBooks_frame [simp]:
  "books (priv_nativeSaveBooks f bs s) = books s"
  "isNative (priv_nativeSaveBooks f bs s) = isNative s"
  "db (priv_nativeSaveBooks f bs s) = db s"
  "Preferences (priv_nativeSaveBooks f bs s) = Preferences s"
  "Filesystem (priv_nativeSaveBooks f bs s) = Filesystem s"
  "Directory (priv_nativeSaveBooks f bs s) = Directory s"
  "fs_store (priv_nativeSaveBooks f bs s) = fs_store s"
  "idb_books (priv_nativeSaveBooks f bs s) = idb_books s"
  "idb_files (priv_nativeSaveBooks f bs s) = idb_files s"
  by (simp_all add: priv_nativeSaveBooks_def Let_def)

lemma nativeSaveBooks_calls:
  "list_all (\<lambda>c. \<not> payload_write c) (calls_during s (priv_nativeSaveBooks f bs s))"
  by (simp add: priv_nativeSaveBooks_def Let_def calls_during_def)

lemma saveBook_frame [simp]:
  "books (snd (priv_saveBook f b s)) = books s"
  "isNative (snd (priv_saveBook f b s)) = isNative s"
  "db (snd (priv_saveBook f b s)) = db s"
  "Preferences (snd (priv_saveBook f b s)) = Preferences s"
  "Filesystem (snd (priv_saveBook f b s)) = Filesystem s"
  "Directory (snd (priv_saveBook f b s)) = Directory s"
  "fs_store (snd (priv_saveBook f b s)) = fs_store s"
  "idb_files (snd (priv_saveBook f b s)) = idb_files s"
  by (simp_all add: priv_saveBook_def priv_idbSaveBook_def priv_localStorageSaveBook_def Let_def)

lemma deleteBook_frame [simp]:
  "books (snd (priv_deleteBook f i s)) = books s"
  "isNative (snd (priv_deleteBook f i s)) = isNative s"
  "db (snd (priv_deleteBook f i s)) = db s"
  "Preferences (snd (priv_deleteBook f i s)) = Preferences s"
  "Filesystem (snd (priv_deleteBook f i s)) = Filesystem s"
  "Directory (snd (priv_deleteBook f i s)) = Directory s"
  "fs_store (snd (priv_deleteBook f i s)) = fs_store s"
  "idb_files (snd (priv_deleteBook f i s)) = idb_files s"
  by (simp_all add: priv_deleteBook_def priv_idbDeleteBook_def Let_def)

lemma saveFile_frame [simp]:
  "books (snd (priv_saveFile f file s)) = books s"
  "isNative (snd (priv_saveFile f file s)) = isNative s"
  "db (snd (priv_saveFile f file s)) = db s"
  "Preferences (snd (priv_saveFile f file s)) = Preferences s"
  "Filesystem (snd (priv_saveFile f file s)) = Filesystem s"
  "Directory (snd (priv_saveFile f file s)) = Directory s"
  "prefs_store (snd (priv_saveFile f file s)) = prefs_store s"
  "local_store (snd (priv_saveFile f file s)) = local_store s"
  "idb_books (snd (priv_saveFile f file s)) = idb_books s"
  by (simp_all add: priv_saveFile_def priv_nativeSaveFile_def priv_idbSaveFile_def Let_def
      split: sum.splits)

lemma deleteFile_frame [simp]:
  "books (snd (priv_deleteFile f i s)) = books s"
  "isNative (snd (priv_deleteFile f i s)) = isNative s"
  "db (snd (priv_deleteFile f i s)) = db s"
  "Preferences (snd (priv_deleteFile f i s)) = Preferences s"
  "Filesystem (snd (priv_deleteFile f i s)) = Filesystem s"
  "Directory (snd (priv_deleteFile f i s)) = Directory s"
  "prefs_store (snd (priv_deleteFile f i s)) = prefs_store s"
  "local_store (snd (priv_deleteFile f i s)) = local_store s"
  "idb_books (snd (priv_deleteFile f i s)) = idb_books s"
  by (simp_all add: priv_deleteFile_def priv_nativeDeleteFile_def priv_idbDeleteFile_def Let_def
      split: option.splits)

subsection \<open>Adding a record\<close>

lemma saveBook_fails_iff:
  "fst (priv_saveBook f b s) = Inl e \<longleftrightarrow>
     \<not> isNative s \<and> db s \<and> books_put_fails f \<and> e = IDBRequestError"
  by (auto simp: priv_saveBook_def priv_idbSaveBook_def Let_def)

lemma addBook_after_failed_save:
  assumes "fst (priv_saveBook f (new_book m meta) s) = Inl e"
  shows "fst (addBook f m meta fileData s) = Inl e \<and>
         books (snd (addBook f m meta fileData s)) = books s"
proof -
  obtain r s1 where step: "priv_saveBook f (new_book m meta) s = (r, s1)"
    by (cases "priv_saveBook f (new_book m meta) s")
  with assms have r: "r = Inl e" by simp
  have "books s1 = books s"
    using saveBook_frame(1) [of f "new_book m meta" s] step by simp
  then show ?thesis by (simp add: addBook_def Let_def step r)
qed

text \<open>
  C2 (as amended). The record-persistence step of \<^verbatim>\<open>addBook\<close> fails (\<^verbatim>\<open>_saveBook\<close> throws
  or rejects) exactly in the web tier with an open database when the put of the record
  fails; in the native tier and without a database a failing write is caught in the
  driver and the step returns. Whenever the step fails, and so whenever that put fails,
  \<^verbatim>\<open>addBook\<close> fails with the same error and the in-memory cache is equal to its value
  before the call.
\<close>

theorem C2_failed_save_leaves_cache:
  "(fst (priv_saveBook f (new_book m meta) s) = Inl e \<longleftrightarrow>
      \<not> isNative s \<and> db s \<and> books_put_fails f \<and> e = IDBRequestError) \<and>
   (fst (priv_saveBook f (new_book m meta) s) = Inl e \<longrightarrow>
      fst (addBook f m meta fileData s) = Inl e \<and>
      books (snd (addBook f m meta fileData s)) = books s) \<and>
   (\<not> isNative s \<and> db s \<and> books_put_fails f \<longrightarrow>
      fst (addBook f m meta fileData s) = Inl IDBRequestError \<and>
      books (snd (addBook f m meta fileData s)) = books s)"
proof -
  have "fst (addBook f m meta fileData s) = Inl IDBRequestError \<and>
      books (snd (addBook f m meta fileData s)) = books s"
    if "\<not> isNative s" "db s" "books_put_fails f"
  proof (rule addBook_after_failed_save)
    show "fst (priv_saveBook f (new_book m meta) s) = Inl IDBRequestError"
      using that by (simp add: saveBook_fails_iff)
  qed
  then show ?thesis
    using saveBook_fails_iff [of f "new_book m meta" s e]
      addBook_after_failed_save [of f m meta s e fileData]
    by blast
qed

theorem C2_failed_save_leaves_cache_witness:
  "\<not> isNative web_service \<and> db web_service \<and>
   books_put_fails (no_faults\<lparr>books_put_fails := True\<rparr>) \<and>
   fst (priv_saveBook (no_faults\<lparr>books_put_fails := True\<rparr>) (new_book (at_moment ''2024-01-01'') pdf_meta)
      web_service) = Inl IDBRequestError \<and>
   fst (addBook (no_faults\<lparr>books_put_fails := True\<rparr>) (at_moment ''2024-01-01'') pdf_meta
      (Some pdf_bytes) web_service) = Inl IDBRequestError \<and>
   books (snd (addBook (no_faults\<lparr>books_put_fails := True\<rparr>) (at_moment ''2024-01-01'') pdf_meta
      (Some pdf_bytes) web_service)) = books web_service"
  using C2_failed_save_leaves_cache [of "no_faults\<lparr>books_put_fails := True\<rparr>"
      "at_moment ''2024-01-01''" pdf_meta web_service IDBRequestError "Some pdf_bytes"]
  by (simp add: web_service_def no_faults_def)

text \<open>
  The native tier with both record writes failing: \<^verbatim>\<open>Preferences.set\<close> throws, the
  fallback \<^verbatim>\<open>localStorage.setItem\<close> throws too, both are caught, and \<^verbatim>\<open>addBook\<close> returns
  the new record and puts it into the cache although no store holds it.
\<close>

theorem C2_native_write_failure_counterexample:
  "fst (addBook (no_faults\<lparr>preferences_set_fails := True, localStorage_setItem_fails := True\<rparr>)
      (at_moment ''2024-01-01'') pdf_meta None native_service) =
     Inr (new_book (at_moment ''2024-01-01'') pdf_meta) \<and>
   books (snd (addBook (no_faults\<lparr>preferences_set_fails := True, localStorage_setItem_fails := True\<rparr>)
      (at_moment ''2024-01-01'') pdf_meta None native_service)) =
     [new_book (at_moment ''2024-01-01'') pdf_meta] \<and>
   books native_service = [] \<and>
   prefs_store (snd (addBook (no_faults\<lparr>preferences_set_fails := True, localStorage_setItem_fails := True\<rparr>)
      (at_moment ''2024-01-01'') pdf_meta None native_service)) = None \<and>
   local_store (snd (addBook (no_faults\<lparr>preferences_set_fails := True, localStorage_setItem_fails := True\<rparr>)
      (at_moment ''2024-01-01'') pdf_meta None native_service)) = None"
  by (simp add: addBook_def priv_saveBook_def priv_nativeSaveBooks_def
      priv_localStorageSaveBooks_def native_service_def no_faults_def Let_def called_def)

subsection \<open>Updating a record\<close>





lemma spread_keeps_id_and_date:
  "id_book_p u = None \<Longrightarrow> id_book (spread b u) = id_book b"
  "addedDate_p u = None \<Longrightarrow> addedDate (spread b u) = addedDate b"
  by (simp_all add: spread_def spread_field_def)




subsection \<open>Fetching a payload in the native tier\<close>


text \<open>
  C10 (as amended). In the native tier the MIME type of a fetched payload is the
  \<^verbatim>\<open>fileMimeType\<close> of the record cached under that id at read time, and
  \<^verbatim>\<open>application/pdf\<close> when no record is cached under the id or the field is absent or
  the empty string. Saving ignores the MIME type it is given: two saves that differ
  only in it have the same result, so no read can return it.
\<close>

theorem C10_native_mime_from_cache:
  "(priv_nativeGetFile f i s = (Some r, s1) \<longrightarrow>
      mimeType r =
        (case find (\<lambda>b. id_book b = i) (books s) of
           None \<Rightarrow> ''application/pdf''
         | Some b \<Rightarrow>
             (case fileMimeType b of
                None \<Rightarrow> ''application/pdf''
              | Some t \<Rightarrow> if t = [] then ''application/pdf'' else t))) \<and>
   priv_nativeSaveFile f (file\<lparr>mimeType := mt\<rparr>) s = priv_nativeSaveFile f file s"
proof -
  have "mimeType r = (case find (\<lambda>b. id_book b = i) (books s) of
           None \<Rightarrow> ''application/pdf'' | Some b \<Rightarrow> or_pdf (fileMimeType b))"
    if "priv_nativeGetFile f i s = (Some r, s1)"
    using that
    by (auto simp: priv_nativeGetFile_def Let_def
        split: if_splits option.splits js_data.splits sum.splits)
  moreover have "priv_nativeSaveFile f (file\<lparr>mimeType := mt\<rparr>) s = priv_nativeSaveFile f file s"
    by (simp add: priv_nativeSaveFile_def Let_def split: sum.splits)
  ultimately show ?thesis
    by (simp add: or_pdf_def split: option.splits)
qed

lemmas native_get_eval = priv_nativeGetFile_def priv_nativeFilePath_def FILES_DIR_def
  native_service_def book_of_def pdf_meta_def no_faults_def or_pdf_def Let_def
  EbookMeta.extend_def UserEbook.fields_def called_def

theorem C10_native_mime_from_cache_witness:
  "map_option mimeType (fst (priv_nativeGetFile no_faults ''b1''
      (native_service\<lparr>books := [(book_of ''b1'' ''2024-01-01'')\<lparr>fileMimeType := Some ''image/png''\<rparr>],
         fs_store := [''ebooks/b1.bin'' \<mapsto> ArrayBufferV pdf_bytes]\<rparr>))) = Some ''image/png''"
proof -
  let ?s = "native_service\<lparr>books := [(book_of ''b1'' ''2024-01-01'')\<lparr>fileMimeType := Some ''image/png''\<rparr>],
         fs_store := [''ebooks/b1.bin'' \<mapsto> ArrayBufferV pdf_bytes]\<rparr>"
  obtain r s1 where got: "priv_nativeGetFile no_faults ''b1'' ?s = (Some r, s1)"
    by (simp add: native_get_eval)
  from C10_native_mime_from_cache [of no_faults "''b1''" ?s r s1] got
  have "mimeType r = ''image/png''"
    by (simp add: native_service_def book_of_def EbookMeta.extend_def UserEbook.fields_def)
  with got show ?thesis by simp
qed

text \<open>
  A cached record whose \<^verbatim>\<open>fileMimeType\<close> is present and empty (what a browser reports
  for a file of unknown type): the fetched payload carries \<^verbatim>\<open>application/pdf\<close>, not the
  field's value.
\<close>

theorem C10_empty_mime_counterexample:
  "map_option fileMimeType (find (\<lambda>b. id_book b = ''b1'')
      (books (native_service\<lparr>books := [(book_of ''b1'' ''2024-01-01'')\<lparr>fileMimeType := Some []\<rparr>],
         fs_store := [''ebooks/b1.bin'' \<mapsto> ArrayBufferV pdf_bytes]\<rparr>))) = Some (Some []) \<and>
   map_option mimeType (fst (priv_nativeGetFile no_faults ''b1''
      (native_service\<lparr>books := [(book_of ''b1'' ''2024-01-01'')\<lparr>fileMimeType := Some []\<rparr>],
         fs_store := [''ebooks/b1.bin'' \<mapsto> ArrayBufferV pdf_bytes]\<rparr>))) = Some ''application/pdf''"
  by (simp add: native_get_eval)

subsection \<open>Payloads in the transactional tier\<close>


lemma bytes_of_numbers: "map (word_of_int \<circ> uint) (bs :: u8 list) = bs"
  by (induction bs) simp_all

text \<open>
  C7 (as amended). In the transactional tier a payload is stored with its content as an
  array of numbers (the bytes as numbers), not as a binary buffer. On read, a stored
  array of numbers is converted to a binary buffer, a stored binary buffer is returned
  as it is, and content of any other shape is returned unchanged (it is cast, not
  converted). Hence a save followed by a get returns the bytes, id and MIME type saved.
\<close>

theorem C7_idb_payload_shapes:
  "(db s \<and> \<not> files_put_fails f \<longrightarrow>
      fst (priv_idbSaveFile f file s) = Inr () \<and>
      idb_files (snd (priv_idbSaveFile f file s)) (id_file file) =
        Some \<lparr>id_file = id_file file, data = NumberArrayV (map uint (data file)),
              mimeType = mimeType file\<rparr>) \<and>
   (db s \<and> \<not> files_get_fails g \<and> idb_files s i = Some raw \<longrightarrow>
      (\<exists>r. fst (priv_idbGetFile g i s) = Inr (Some r) \<and>
           id_file r = id_file raw \<and> mimeType r = mimeType raw \<and>
           (\<forall>ns. data raw = NumberArrayV ns \<longrightarrow> data r = ArrayBufferV (map word_of_int ns)) \<and>
           (\<forall>b. data raw = ArrayBufferV b \<longrightarrow> data r = ArrayBufferV b) \<and>
           (\<forall>t. data raw = StringV t \<longrightarrow> data r = StringV t) \<and>
           (\<forall>h. data raw = OtherV h \<longrightarrow> data r = OtherV h))) \<and>
   (db s \<and> \<not> files_put_fails f \<and> \<not> files_get_fails g \<longrightarrow>
      fst (priv_idbGetFile g (id_file file) (snd (priv_idbSaveFile f file s))) =
        Inr (Some \<lparr>id_file = id_file file, data = ArrayBufferV (data file),
                   mimeType = mimeType file\<rparr>))"
  by (auto simp: priv_idbSaveFile_def priv_idbGetFile_def Let_def bytes_of_numbers
      split: js_data.splits)

lemmas idb_file_eval = priv_idbSaveFile_def priv_idbGetFile_def web_service_def no_faults_def
  pdf_bytes_def FILES_STORE_def Let_def called_def

theorem C7_idb_payload_shapes_witness:
  "idb_files (snd (priv_idbSaveFile no_faults
       \<lparr>id_file = ''b1'', data = pdf_bytes, mimeType = ''application/pdf''\<rparr> web_service)) ''b1'' =
     Some \<lparr>id_file = ''b1'', data = NumberArrayV [37, 80, 68, 70], mimeType = ''application/pdf''\<rparr> \<and>
   fst (priv_idbGetFile no_faults ''b1'' (snd (priv_idbSaveFile no_faults
       \<lparr>id_file = ''b1'', data = pdf_bytes, mimeType = ''application/pdf''\<rparr> web_service))) =
     Inr (Some \<lparr>id_file = ''b1'', data = ArrayBufferV pdf_bytes, mimeType = ''application/pdf''\<rparr>)"
  using C7_idb_payload_shapes [of web_service no_faults
      "\<lparr>id_file = ''b1'', data = pdf_bytes, mimeType = ''application/pdf''\<rparr>" no_faults]
  by (simp add: web_service_def no_faults_def pdf_bytes_def)

text \<open>
  Stored content that is neither a binary buffer nor an array (a typed-array view or a
  \<^verbatim>\<open>Blob\<close>, say) comes back as that same value, not as a binary buffer.
\<close>

theorem C7_other_shape_counterexample:
  "fst (priv_idbGetFile no_faults ''b1''
      (web_service\<lparr>idb_files :=
         [''b1'' \<mapsto> \<lparr>id_file = ''b1'', data = OtherV 0, mimeType = ''image/png''\<rparr>]\<rparr>)) =
   Inr (Some \<lparr>id_file = ''b1'', data = OtherV 0, mimeType = ''image/png''\<rparr>)"
  by (simp add: idb_file_eval)

subsection \<open>Failures of the payload steps\<close>


lemma arrayBufferToBase64_returns:
  "priv_arrayBufferToBase64 b = Inr (b64_encode (map unat b))"
  by (simp add: priv_arrayBufferToBase64_def binary_loop_eq btoa_def fromCharCode_latin1
      unat_fromCharCode)

lemma new_book_fields:
  "fileType (new_book m meta) = fileType meta"
  "fileMimeType (new_book m meta) = fileMimeType meta"
  "id_book (new_book m meta) = ''book-'' @ Date_now m @ ''-'' @ random_suffix m"
  "addedDate (new_book m meta) = today m"
  by (simp_all add: new_book_def EbookMeta.extend_def UserEbook.fields_def)

lemma native_saveBook_returns: "isNative s \<Longrightarrow> fst (priv_saveBook f b s) = Inr ()"
  by (simp add: priv_saveBook_def Let_def)

lemma native_deleteBook_returns: "isNative s \<Longrightarrow> fst (priv_deleteBook f i s) = Inr ()"
  by (simp add: priv_deleteBook_def)

lemma native_deleteFile_returns: "isNative s \<Longrightarrow> fst (priv_deleteFile f i s) = Inr ()"
  by (simp add: priv_deleteFile_def)

lemma native_deleteBook_facade: "isNative s \<Longrightarrow> fst (deleteBook f i s) = Inr ()"
proof -
  assume native: "isNative s"
  obtain r1 s1 where a: "priv_deleteBook f i s = (r1, s1)" by (cases "priv_deleteBook f i s")
  obtain r2 s2 where b: "priv_deleteFile f i s1 = (r2, s2)" by (cases "priv_deleteFile f i s1")
  have "r1 = Inr ()" using native_deleteBook_returns [OF native, of f i] a by simp
  moreover have "isNative s1" using deleteBook_frame(2) [of f i s] a native by simp
  then have "r2 = Inr ()" using native_deleteFile_returns [of s1 f i] b by simp
  ultimately show ?thesis by (simp add: deleteBook_def a b)
qed

lemma addBook_write_fails:
  assumes saved: "fst (priv_saveBook f (new_book m meta) s) = Inr ()"
    and not_url: "fileType meta \<noteq> URL"
    and fails: "fst (priv_saveFile f \<lparr>id_file = id_book (new_book m meta), data = bytes,
                   mimeType = or_pdf (fileMimeType (new_book m meta))\<rparr>
                   (snd (priv_saveBook f (new_book m meta) s))) = Inl e"
  shows "fst (addBook f m meta (Some bytes) s) = Inl e \<and>
         books (snd (addBook f m meta (Some bytes) s)) = books s"
proof -
  let ?book = "new_book m meta"
  let ?file = "\<lparr>id_file = id_book ?book, data = bytes, mimeType = or_pdf (fileMimeType ?book)\<rparr>"
  obtain r1 s1 where a: "priv_saveBook f ?book s = (r1, s1)" by (cases "priv_saveBook f ?book s")
  obtain r2 s2 where b: "priv_saveFile f ?file s1 = (r2, s2)" by (cases "priv_saveFile f ?file s1")
  have r1: "r1 = Inr ()" using saved a by simp
  have r2: "r2 = Inl e" using fails a b by simp
  have "books s1 = books s" using saveBook_frame(1) [of f ?book s] a by simp
  moreover have "books s2 = books s1" using saveFile_frame(1) [of f ?file s1] b by simp
  ultimately show ?thesis using not_url by (simp add: addBook_def Let_def a b r1 r2 new_book_fields(1))
qed

text \<open>
  C3 (as amended). A failure of the payload delete step in the native tier is caught in
  the driver: there \<^verbatim>\<open>_deleteFile\<close>, and \<^verbatim>\<open>deleteBook\<close> as a whole, complete without
  throwing whatever the stores do. When the capability is missing (no Filesystem plugin
  in the native tier, no database in the web tier) payload save and delete do nothing
  and do not throw. A failure of the payload write itself is not caught: when
  \<^verbatim>\<open>writeFile\<close> fails in the native tier, or the put into the files store fails in the
  web tier after the record was stored, \<^verbatim>\<open>addBook\<close> fails with that error and the cache
  is left as it was.
\<close>

theorem C3_payload_failures:
  "(isNative s \<longrightarrow> fst (priv_deleteFile f i s) = Inr () \<and> fst (deleteBook f i s) = Inr ()) \<and>
   (isNative s \<and> (\<not> Filesystem s \<or> \<not> Directory s) \<longrightarrow>
      priv_saveFile f file s = (Inr (), s) \<and> priv_deleteFile f i s = (Inr (), s)) \<and>
   (\<not> isNative s \<and> \<not> db s \<longrightarrow>
      priv_saveFile f file s = (Inr (), s) \<and> priv_deleteFile f i s = (Inr (), s)) \<and>
   (isNative s \<and> Filesystem s \<and> Directory s \<and> writeFile_fails f \<and> fileType meta \<noteq> URL \<longrightarrow>
      fst (addBook f m meta (Some bytes) s) = Inl PluginError \<and>
      books (snd (addBook f m meta (Some bytes) s)) = books s) \<and>
   (\<not> isNative s \<and> db s \<and> \<not> books_put_fails f \<and> files_put_fails f \<and> fileType meta \<noteq> URL \<longrightarrow>
      fst (addBook f m meta (Some bytes) s) = Inl IDBRequestError \<and>
      books (snd (addBook f m meta (Some bytes) s)) = books s)"
proof -
  have del: "fst (priv_deleteFile f i s) = Inr () \<and> fst (deleteBook f i s) = Inr ()" if "isNative s"
    using that by (simp add: native_deleteFile_returns native_deleteBook_facade)
  have skip1: "priv_saveFile f file s = (Inr (), s) \<and> priv_deleteFile f i s = (Inr (), s)"
    if "isNative s" "\<not> Filesystem s \<or> \<not> Directory s"
    using that
    by (auto simp: priv_saveFile_def priv_nativeSaveFile_def priv_deleteFile_def
        priv_nativeDeleteFile_def)
  have skip2: "priv_saveFile f file s = (Inr (), s) \<and> priv_deleteFile f i s = (Inr (), s)"
    if "\<not> isNative s" "\<not> db s"
    using that
    by (simp add: priv_saveFile_def priv_idbSaveFile_def priv_deleteFile_def priv_idbDeleteFile_def)
  have nat: "fst (addBook f m meta (Some bytes) s) = Inl PluginError \<and>
      books (snd (addBook f m meta (Some bytes) s)) = books s"
    if "isNative s" "Filesystem s" "Directory s" "writeFile_fails f" "fileType meta \<noteq> URL"
  proof (rule addBook_write_fails)
    show "fst (priv_saveBook f (new_book m meta) s) = Inr ()"
      using that(1) by (rule native_saveBook_returns)
    show "fileType meta \<noteq> URL" by (rule that(5))
    show "fst (priv_saveFile f \<lparr>id_file = id_book (new_book m meta), data = bytes,
                   mimeType = or_pdf (fileMimeType (new_book m meta))\<rparr>
                   (snd (priv_saveBook f (new_book m meta) s))) = Inl PluginError"
      using that
      by (simp add: priv_saveFile_def priv_nativeSaveFile_def arrayBufferToBase64_returns Let_def)
  qed
  have web: "fst (addBook f m meta (Some bytes) s) = Inl IDBRequestError \<and>
      books (snd (addBook f m meta (Some bytes) s)) = books s"
    if "\<not> isNative s" "db s" "\<not> books_put_fails f" "files_put_fails f" "fileType meta \<noteq> URL"
  proof (rule addBook_write_fails)
    show "fst (priv_saveBook f (new_book m meta) s) = Inr ()"
      using that by (simp add: priv_saveBook_def priv_idbSaveBook_def Let_def)
    show "fileType meta \<noteq> URL" by (rule that(5))
    show "fst (priv_saveFile f \<lparr>id_file = id_book (new_book m meta), data = bytes,
                   mimeType = or_pdf (fileMimeType (new_book m meta))\<rparr>
                   (snd (priv_saveBook f (new_book m meta) s))) = Inl IDBRequestError"
      using that by (simp add: priv_saveFile_def priv_idbSaveFile_def Let_def)
  qed
  from del skip1 skip2 nat web show ?thesis by blast
qed

theorem C3_payload_failures_witness:
  "isNative native_service \<and> Filesystem native_service \<and> Directory native_service \<and>
   writeFile_fails (no_faults\<lparr>writeFile_fails := True, deleteFile_fails := True\<rparr>) \<and>
   fileType pdf_meta \<noteq> URL \<and>
   fst (deleteBook (no_faults\<lparr>writeFile_fails := True, deleteFile_fails := True\<rparr>) ''b1''
          native_service) = Inr () \<and>
   fst (addBook (no_faults\<lparr>writeFile_fails := True, deleteFile_fails := True\<rparr>)
          (at_moment ''2024-01-01'') pdf_meta (Some pdf_bytes) native_service) = Inl PluginError \<and>
   books (snd (addBook (no_faults\<lparr>writeFile_fails := True, deleteFile_fails := True\<rparr>)
          (at_moment ''2024-01-01'') pdf_meta (Some pdf_bytes) native_service)) = []"
  using C3_payload_failures [of native_service
      "no_faults\<lparr>writeFile_fails := True, deleteFile_fails := True\<rparr>" "''b1''" _ pdf_meta
      "at_moment ''2024-01-01''" pdf_bytes]
  by (simp add: native_service_def no_faults_def pdf_meta_def)

text \<open>
  Adding a PDF with its bytes in the native tier while \<^verbatim>\<open>Filesystem.writeFile\<close> fails:
  the call throws.
\<close>

theorem C3_write_failure_propagates_counterexample:
  "fst (addBook (no_faults\<lparr>writeFile_fails := True\<rparr>) (at_moment ''2024-01-01'') pdf_meta
          (Some pdf_bytes) native_service) = Inl PluginError"
  by (simp add: addBook_def priv_saveBook_def priv_nativeSaveBooks_def priv_saveFile_def
      priv_nativeSaveFile_def arrayBufferToBase64_returns native_service_def no_faults_def
      pdf_meta_def Let_def called_def new_book_fields)

subsection \<open>Deleting an id that is not there\<close>


lemma filter_absent_id: "list_all (\<lambda>b. id_book b \<noteq> i) bs \<Longrightarrow> filter (\<lambda>b. id_book b \<noteq> i) bs = bs"
  by (induction bs) simp_all

lemma deleteBook_cache:
  "books (snd (deleteBook f i s)) = books s \<or>
   books (snd (deleteBook f i s)) = filter (\<lambda>b. id_book b \<noteq> i) (books s)"
proof -
  obtain r1 s1 where a: "priv_deleteBook f i s = (r1, s1)" by (cases "priv_deleteBook f i s")
  obtain r2 s2 where b: "priv_deleteFile f i s1 = (r2, s2)" by (cases "priv_deleteFile f i s1")
  have "books s1 = books s" using deleteBook_frame(1) [of f i s] a by simp
  moreover have "books s2 = books s1" using deleteFile_frame(1) [of f i s1] b by simp
  ultimately show ?thesis by (cases r1; cases r2) (simp_all add: deleteBook_def a b)
qed

lemma deleteBook_prefs:
  "prefs_store (snd (deleteBook f i s)) = prefs_store (snd (priv_deleteBook f i s))"
  "idb_books (snd (deleteBook f i s)) = idb_books (snd (priv_deleteBook f i s))"
proof -
  obtain r1 s1 where a: "priv_deleteBook f i s = (r1, s1)" by (cases "priv_deleteBook f i s")
  obtain r2 s2 where b: "priv_deleteFile f i s1 = (r2, s2)" by (cases "priv_deleteFile f i s1")
  have "prefs_store s2 = prefs_store s1" "idb_books s2 = idb_books s1"
    using deleteFile_frame(7,9) [of f i s1] b by simp_all
  then show "prefs_store (snd (deleteBook f i s)) = prefs_store (snd (priv_deleteBook f i s))"
    and "idb_books (snd (deleteBook f i s)) = idb_books (snd (priv_deleteBook f i s))"
    by (cases r1; cases r2; simp add: deleteBook_def a b)+
qed

lemma web_deleteBook_returns:
  assumes "\<not> isNative s" and "\<not> db s \<or> (\<not> books_delete_fails f \<and> \<not> files_delete_fails f)"
  shows "fst (deleteBook f i s) = Inr ()"
  using assms
  by (auto simp: deleteBook_def priv_deleteBook_def priv_idbDeleteBook_def priv_deleteFile_def
      priv_idbDeleteFile_def Let_def)

text \<open>
  C8 (as amended). For an id that no cached record has, \<^verbatim>\<open>deleteBook\<close> leaves the cache
  unchanged. In the native tier it never throws, and it rewrites the list under
  Preferences with the content of the cache: the durable list is unchanged when it was
  equal to the cache before. In the web tier the records store is unchanged when it
  holds no record under that id, and the call does not throw when there is no database
  or neither delete transaction fails.
\<close>

theorem C8_delete_absent_id:
  assumes absent: "list_all (\<lambda>b. id_book b \<noteq> i) (books s)"
  shows "books (snd (deleteBook f i s)) = books s \<and>
    (isNative s \<longrightarrow>
       fst (deleteBook f i s) = Inr () \<and>
       (prefs_store s = Some (books s) \<longrightarrow> prefs_store (snd (deleteBook f i s)) = prefs_store s) \<and>
       (Preferences s \<and> \<not> preferences_set_fails f \<longrightarrow>
          prefs_store (snd (deleteBook f i s)) = Some (books s))) \<and>
    (\<not> isNative s \<longrightarrow>
       (idb_books s i = None \<longrightarrow> idb_books (snd (deleteBook f i s)) = idb_books s) \<and>
       (\<not> db s \<or> (\<not> books_delete_fails f \<and> \<not> files_delete_fails f) \<longrightarrow>
          fst (deleteBook f i s) = Inr ()))"
proof -
  have same: "filter (\<lambda>b. id_book b \<noteq> i) (books s) = books s"
    using absent by (rule filter_absent_id)
  have cache: "books (snd (deleteBook f i s)) = books s"
    using deleteBook_cache [of f i s] same by auto
  have native: "prefs_store (snd (deleteBook f i s)) =
      (if Preferences s \<and> \<not> preferences_set_fails f then Some (books s) else prefs_store s)"
    if "isNative s"
    using that
    by (simp add: deleteBook_prefs priv_deleteBook_def priv_nativeSaveBooks_def
        priv_localStorageSaveBooks_def Let_def same)
  have web: "idb_books (snd (deleteBook f i s)) = idb_books s" if "\<not> isNative s" "idb_books s i = None"
  proof -
    have "(idb_books s)(i := None) = idb_books s" using that(2) by (simp add: fun_upd_idem)
    then show ?thesis
      using that(1) by (simp add: deleteBook_prefs priv_deleteBook_def priv_idbDeleteBook_def Let_def)
  qed
  show ?thesis
    using cache native web native_deleteBook_facade [of s f i] web_deleteBook_returns [of s f i]
    by auto
qed

lemmas delete_eval = deleteBook_def priv_deleteBook_def priv_nativeSaveBooks_def
  priv_deleteFile_def priv_nativeDeleteFile_def priv_nativeFilePath_def FILES_DIR_def
  priv_idbDeleteBook_def priv_idbDeleteFile_def native_service_def web_service_def
  no_faults_def Let_def called_def

theorem C8_delete_absent_id_witness:
  "list_all (\<lambda>b. id_book b \<noteq> ''ghost'')
     (books (web_service\<lparr>books := [book_of ''b1'' ''2024-01-01''],
               idb_books := [''b1'' \<mapsto> book_of ''b1'' ''2024-01-01'']\<rparr>)) \<and>
   fst (deleteBook no_faults ''ghost''
     (web_service\<lparr>books := [book_of ''b1'' ''2024-01-01''],
               idb_books := [''b1'' \<mapsto> book_of ''b1'' ''2024-01-01'']\<rparr>)) = Inr () \<and>
   books (snd (deleteBook no_faults ''ghost''
     (web_service\<lparr>books := [book_of ''b1'' ''2024-01-01''],
               idb_books := [''b1'' \<mapsto> book_of ''b1'' ''2024-01-01'']\<rparr>))) = [book_of ''b1'' ''2024-01-01''] \<and>
   idb_books (snd (deleteBook no_faults ''ghost''
     (web_service\<lparr>books := [book_of ''b1'' ''2024-01-01''],
               idb_books := [''b1'' \<mapsto> book_of ''b1'' ''2024-01-01'']\<rparr>))) =
     [''b1'' \<mapsto> book_of ''b1'' ''2024-01-01'']"
proof -
  let ?s = "web_service\<lparr>books := [book_of ''b1'' ''2024-01-01''],
               idb_books := [''b1'' \<mapsto> book_of ''b1'' ''2024-01-01'']\<rparr>"
  have absent: "list_all (\<lambda>b. id_book b \<noteq> ''ghost'') (books ?s)"
    by (simp add: web_service_def book_of_def EbookMeta.extend_def UserEbook.fields_def)
  from absent C8_delete_absent_id [OF absent, of no_faults] show ?thesis
    by (simp add: web_service_def no_faults_def)
qed

text \<open>
  The native tier after a start at which reading Preferences failed: the loader caught
  the failure and the cache is empty, while the durable list holds one record. Deleting
  an id that is in neither of them rewrites the durable list to the empty list.
\<close>

theorem C8_durable_list_rewritten_counterexample:
  "fst (priv_nativeLoadBooks calendar_host (no_faults\<lparr>preferences_get_fails := True\<rparr>)
     (native_service\<lparr>prefs_store := Some [book_of ''b1'' ''2024-01-01'']\<rparr>)) = [] \<and>
   books (native_service\<lparr>prefs_store := Some [book_of ''b1'' ''2024-01-01'']\<rparr>) = [] \<and>
   prefs_store (native_service\<lparr>prefs_store := Some [book_of ''b1'' ''2024-01-01'']\<rparr>) =
     Some [book_of ''b1'' ''2024-01-01''] \<and>
   prefs_store (snd (deleteBook no_faults ''ghost''
     (native_service\<lparr>prefs_store := Some [book_of ''b1'' ''2024-01-01'']\<rparr>))) = Some []"
  by (simp add: delete_eval priv_nativeLoadBooks_def)

subsection \<open>When a payload is written\<close>


lemma stores_differ: "BOOKS_STORE \<noteq> FILES_STORE"
  by (simp add: BOOKS_STORE_def FILES_STORE_def)

lemma saveBook_calls:
  "\<exists>cs. calls (snd (priv_saveBook f b s)) = calls s @ cs \<and> \<not> list_ex payload_write cs"
  by (simp add: priv_saveBook_def priv_idbSaveBook_def priv_localStorageSaveBook_def
      priv_nativeSaveBooks_def priv_localStorageSaveBooks_def Let_def stores_differ)

lemma saveFile_calls:
  "\<exists>c. calls (snd (priv_saveFile f file s)) =
     calls s @ (if can_store_payload s then [c] else []) \<and> payload_write c"
  by (auto simp: priv_saveFile_def priv_nativeSaveFile_def priv_idbSaveFile_def Let_def
      can_store_payload_def arrayBufferToBase64_returns
      intro: exI [of _ "FilesystemWriteFile x" for x] exI [of _ "IdbPut FILES_STORE x" for x])

lemma saveBook_can_store: "can_store_payload (snd (priv_saveBook f b s)) = can_store_payload s"
  by (simp add: can_store_payload_def)

lemma addBook_payload_written:
  "payload_written s (snd (addBook f m meta fileData s)) \<longleftrightarrow>
     fileData \<noteq> None \<and> fileType meta \<noteq> URL \<and>
     fst (priv_saveBook f (new_book m meta) s) = Inr () \<and> can_store_payload s"
proof -
  let ?book = "new_book m meta"
  obtain r1 s1 where a: "priv_saveBook f ?book s = (r1, s1)" by (cases "priv_saveBook f ?book s")
  obtain cs where cs: "calls s1 = calls s @ cs" "\<not> list_ex payload_write cs"
    using saveBook_calls [of f ?book s] a by auto
  have can: "can_store_payload s1 = can_store_payload s"
    using saveBook_can_store [of f ?book s] a by simp
  show ?thesis
  proof (cases r1)
    case (Inl e)
    then show ?thesis using cs by (simp add: addBook_def Let_def a payload_written_def calls_during_def)
  next
    case (Inr u)
    show ?thesis
    proof (cases "fileData \<noteq> None \<and> fileType meta \<noteq> URL")
      case False
      then show ?thesis using cs Inr
        by (auto simp: addBook_def Let_def a payload_written_def calls_during_def
            new_book_fields(1) split: option.splits)
    next
      case True
      then obtain bytes where bytes: "fileData = Some bytes" by auto
      let ?file = "\<lparr>id_file = id_book ?book, data = bytes, mimeType = or_pdf (fileMimeType ?book)\<rparr>"
      obtain r2 s2 where b: "priv_saveFile f ?file s1 = (r2, s2)" by (cases "priv_saveFile f ?file s1")
      obtain c where c: "calls s2 = calls s1 @ (if can_store_payload s1 then [c] else [])"
        "payload_write c"
        using saveFile_calls [of f ?file s1] b by auto
      have "calls (snd (addBook f m meta fileData s)) = calls s2"
        using True Inr by (cases r2) (simp_all add: addBook_def Let_def a b bytes new_book_fields(1))
      then show ?thesis
        using True Inr cs c can a
        by (simp add: payload_written_def calls_during_def)
    qed
  qed
qed

lemma addBook_without_payload:
  assumes "fileData = None \<or> fileType meta = URL"
  shows "fs_store (snd (addBook f m meta fileData s)) = fs_store s"
    and "idb_files (snd (addBook f m meta fileData s)) = idb_files s"
proof -
  let ?book = "new_book m meta"
  obtain r1 s1 where a: "priv_saveBook f ?book s = (r1, s1)" by (cases "priv_saveBook f ?book s")
  have "fs_store s1 = fs_store s" "idb_files s1 = idb_files s"
    using saveBook_frame(7,8) [of f ?book s] a by simp_all
  then show "fs_store (snd (addBook f m meta fileData s)) = fs_store s"
    and "idb_files (snd (addBook f m meta fileData s)) = idb_files s"
    using assms
    by (cases r1; cases fileData; simp add: addBook_def Let_def a new_book_fields(1))+
qed

lemma getFileDataUrl_nothing_stored:
  assumes "fs_store s (priv_nativeFilePath i) = None" and "idb_files s i = None"
  shows "fst (getFileDataUrl g i s) = None"
  using assms
  by (simp add: getFileDataUrl_def priv_getFile_def priv_nativeGetFile_def priv_idbGetFile_def
      Let_def)

text \<open>
  C6 (as amended). During \<^verbatim>\<open>addBook\<close> a payload write is made (a \<^verbatim>\<open>writeFile\<close>, or a put
  into the files store) exactly when the caller supplies payload bytes, the
  \<^verbatim>\<open>fileType\<close> is not \<^verbatim>\<open>URL\<close>, the record-persistence step before it succeeded, and the
  tier's payload store is there. In particular, for a record added with \<^verbatim>\<open>fileType\<close>
  \<^verbatim>\<open>URL\<close> or without payload bytes no payload write is made and, when no payload was
  stored under the new id before, \<^verbatim>\<open>getFileDataUrl\<close> for that id returns \<^verbatim>\<open>null\<close>, whatever
  the stores do.
\<close>

theorem C6_payload_write_condition:
  "(payload_written s (snd (addBook f m meta fileData s)) \<longleftrightarrow>
      fileData \<noteq> None \<and> fileType meta \<noteq> URL \<and>
      fst (priv_saveBook f (new_book m meta) s) = Inr () \<and> can_store_payload s) \<and>
   ((fileData = None \<or> fileType meta = URL) \<and>
    fs_store s (priv_nativeFilePath (id_book (new_book m meta))) = None \<and>
    idb_files s (id_book (new_book m meta)) = None \<longrightarrow>
      \<not> payload_written s (snd (addBook f m meta fileData s)) \<and>
      fst (getFileDataUrl g (id_book (new_book m meta)) (snd (addBook f m meta fileData s))) = None)"
proof -
  have "fst (getFileDataUrl g (id_book (new_book m meta)) (snd (addBook f m meta fileData s))) = None"
    if "fileData = None \<or> fileType meta = URL"
      and "fs_store s (priv_nativeFilePath (id_book (new_book m meta))) = None"
      and "idb_files s (id_book (new_book m meta)) = None"
    using that by (intro getFileDataUrl_nothing_stored) (simp_all add: addBook_without_payload)
  then show ?thesis
    using addBook_payload_written [of s f m meta fileData] by auto
qed


theorem C6_payload_write_condition_witness:
  "fileType url_meta = URL \<and>
   fs_store web_service (priv_nativeFilePath (id_book (new_book (at_moment ''2024-01-01'') url_meta))) = None \<and>
   idb_files web_service (id_book (new_book (at_moment ''2024-01-01'') url_meta)) = None \<and>
   \<not> payload_written web_service
       (snd (addBook no_faults (at_moment ''2024-01-01'') url_meta None web_service)) \<and>
   fst (getFileDataUrl no_faults (id_book (new_book (at_moment ''2024-01-01'') url_meta))
       (snd (addBook no_faults (at_moment ''2024-01-01'') url_meta None web_service))) = None \<and>
   payload_written web_service
       (snd (addBook no_faults (at_moment ''2024-01-01'') pdf_meta (Some pdf_bytes) web_service))"
  using C6_payload_write_condition [of web_service no_faults "at_moment ''2024-01-01''" url_meta
      None no_faults]
    C6_payload_write_condition [of web_service no_faults "at_moment ''2024-01-01''" pdf_meta
      "Some pdf_bytes" no_faults]
  by (simp add: web_service_def no_faults_def url_meta_def pdf_meta_def can_store_payload_def
      priv_saveBook_def priv_idbSaveBook_def Let_def)

text \<open>
  Bytes are supplied and the type is \<^verbatim>\<open>PDF\<close>, but storing the record fails: \<^verbatim>\<open>addBook\<close>
  stops there and no payload write is made.
\<close>

theorem C6_no_write_after_failed_save_counterexample:
  "fileType pdf_meta \<noteq> URL \<and>
   \<not> payload_written web_service
       (snd (addBook (no_faults\<lparr>books_put_fails := True\<rparr>) (at_moment ''2024-01-01'') pdf_meta
          (Some pdf_bytes) web_service))"
  by (simp add: web_service_def no_faults_def pdf_meta_def addBook_def priv_saveBook_def
      priv_idbSaveBook_def Let_def called_def payload_written_def calls_during_def
      stores_differ)

subsection \<open>Order of the cache\<close>


lemma sortedDesc_dates:
  "sortedDesc getTime bs = sorted_wrt (\<lambda>x y. getTime y \<le> getTime x) (map addedDate bs)"
  by (simp add: sortedDesc_def sorted_wrt_map)

lemma dated_until_dates:
  "dated_until getTime t bs = list_all (\<lambda>d. getTime d \<le> t) (map addedDate bs)"
  by (simp add: dated_until_def list_all_iff)

lemma ids_within_ids:
  "ids_within used bs = (distinct (map id_book bs) \<and> set (map id_book bs) \<subseteq> set used)"
  by (auto simp: ids_within_def list_all_iff)

lemma find_unique:
  assumes "distinct (map f bs)" and "find (\<lambda>b. f b = i) bs = Some old"
    and "b \<in> set bs" and "f b = i"
  shows "b = old"
  using assms
proof (induction bs)
  case Nil
  then show ?case by simp
next
  case (Cons a bs)
  show ?case
  proof (cases "f a = i")
    case True
    then have "old = a" using Cons.prems(2) by simp
    moreover have "b = a"
    proof (rule ccontr)
      assume "b \<noteq> a"
      then have "b \<in> set bs" using Cons.prems(3) by simp
      then have "f b \<in> f ` set bs" by simp
      then show False using Cons.prems(1,4) True by simp
    qed
    ultimately show ?thesis by simp
  next
    case False
    then show ?thesis using Cons by auto
  qed
qed

lemma replace_keeps_ids_and_dates:
  assumes "distinct (map id_book bs)" and "find (\<lambda>b. id_book b = i) bs = Some old"
    and "id_book_p u = None" and "addedDate_p u = None"
  shows "map id_book (map (\<lambda>b. if id_book b = i then spread old u else b) bs) = map id_book bs"
    and "map addedDate (map (\<lambda>b. if id_book b = i then spread old u else b) bs) = map addedDate bs"
proof -
  have same: "b = old" if "b \<in> set bs" "id_book b = i" for b
    using assms(1,2) that by (rule find_unique)
  show "map id_book (map (\<lambda>b. if id_book b = i then spread old u else b) bs) = map id_book bs"
    using same assms(3) by (auto simp: spread_keeps_id_and_date)
  show "map addedDate (map (\<lambda>b. if id_book b = i then spread old u else b) bs) = map addedDate bs"
    using same assms(4) by (auto simp: spread_keeps_id_and_date)
qed

lemma addBook_cache:
  "books (snd (addBook f m meta fileData s)) = books s \<or>
   books (snd (addBook f m meta fileData s)) = new_book m meta # books s"
proof -
  let ?book = "new_book m meta"
  obtain r1 s1 where a: "priv_saveBook f ?book s = (r1, s1)" by (cases "priv_saveBook f ?book s")
  have s1: "books s1 = books s" using saveBook_frame(1) [of f ?book s] a by simp
  show ?thesis
  proof (cases "\<exists>bytes. fileData = Some bytes \<and> fileType ?book \<noteq> URL")
    case True
    then obtain bytes where bytes: "fileData = Some bytes" "fileType ?book \<noteq> URL" by auto
    let ?file = "\<lparr>id_file = id_book ?book, data = bytes, mimeType = or_pdf (fileMimeType ?book)\<rparr>"
    obtain r2 s2 where b: "priv_saveFile f ?file s1 = (r2, s2)" by (cases "priv_saveFile f ?file s1")
    have "books s2 = books s1" using saveFile_frame(1) [of f ?file s1] b by simp
    then show ?thesis using s1 bytes by (cases r1; cases r2) (simp_all add: addBook_def Let_def a b)
  next
    case False
    then show ?thesis using s1
      by (cases r1; cases fileData) (auto simp: addBook_def Let_def a)
  qed
qed

lemma updateBook_cache:
  "books (snd (updateBook f i u s)) = books s \<or>
   (\<exists>old. find (\<lambda>b. id_book b = i) (books s) = Some old \<and>
      books (snd (updateBook f i u s)) =
        map (\<lambda>b. if id_book b = i then spread old u else b) (books s))"
proof (cases "find (\<lambda>b. id_book b = i) (books s)")
  case None
  then show ?thesis by (simp add: updateBook_def)
next
  case (Some old)
  obtain r1 s1 where a: "priv_saveBook f (spread old u) s = (r1, s1)"
    by (cases "priv_saveBook f (spread old u) s")
  have "books s1 = books s" using saveBook_frame(1) [of f "spread old u" s] a by simp
  then show ?thesis using Some by (cases r1) (simp_all add: updateBook_def Let_def a)
qed

lemma cache_inv_add:
  assumes "cache_inv getTime t used bs" and "t \<le> getTime (addedDate b)" and "id_book b \<notin> set used"
  shows "cache_inv getTime (getTime (addedDate b)) (id_book b # used) (b # bs)"
    and "cache_inv getTime (getTime (addedDate b)) (id_book b # used) bs"
  using assms
  by (auto simp: cache_inv_def sortedDesc_def dated_until_def ids_within_def list_all_iff)

lemma cache_inv_filter:
  assumes "cache_inv getTime t used bs"
  shows "cache_inv getTime t used (filter P bs)"
  using assms
  by (auto simp: cache_inv_def sortedDesc_def dated_until_def ids_within_def list_all_iff
      sorted_wrt_filter distinct_map_filter)

lemma cache_inv_replace:
  assumes "cache_inv getTime t used bs" and "find (\<lambda>b. id_book b = i) bs = Some old"
    and "id_book_p u = None" and "addedDate_p u = None"
  shows "cache_inv getTime t used (map (\<lambda>b. if id_book b = i then spread old u else b) bs)"
proof -
  have d: "distinct (map id_book bs)" using assms(1) by (simp add: cache_inv_def ids_within_def)
  note keep = replace_keeps_ids_and_dates [OF d assms(2,3,4)]
  show ?thesis
    using assms(1) unfolding cache_inv_def sortedDesc_dates dated_until_dates ids_within_ids
    by (simp only: keep)
qed

lemma in_arrival_orderI:
  assumes "distinct ids" and "map id_book bs = filter (\<lambda>i. i \<in> S) ids"
  shows "in_arrival_order ids bs"
proof -
  have "filter (\<lambda>i. i \<in> set (filter (\<lambda>i. i \<in> S) ids)) ids = filter (\<lambda>i. i \<in> S) ids"
    by (rule filter_cong) auto
  then have "map id_book bs = filter (\<lambda>i. i \<in> set (map id_book bs)) ids"
    by (simp only: assms(2))
  with assms(1) show ?thesis unfolding in_arrival_order_def by (rule conjI)
qed

lemma in_arrival_orderE:
  assumes "in_arrival_order ids bs"
  obtains S where "distinct ids" and "map id_book bs = filter (\<lambda>i. i \<in> S) ids"
  using assms unfolding in_arrival_order_def by blast

lemma arrival_add_front:
  assumes "in_arrival_order ids bs" and "n \<notin> set ids" and "id_book b = n"
  shows "in_arrival_order (n # ids) (b # bs)"
proof -
  from assms(1) obtain S where d: "distinct ids" and xs: "map id_book bs = filter (\<lambda>i. i \<in> S) ids"
    by (rule in_arrival_orderE)
  have "filter (\<lambda>i. i \<in> insert n S) ids = filter (\<lambda>i. i \<in> S) ids"
    using assms(2) by (intro filter_cong) auto
  then have "map id_book (b # bs) = filter (\<lambda>i. i \<in> insert n S) (n # ids)"
    using xs assms(3) by simp
  moreover have "distinct (n # ids)" using d assms(2) by simp
  ultimately show ?thesis by (rule in_arrival_orderI [rotated])
qed

lemma arrival_add_skip:
  assumes "in_arrival_order ids bs" and "n \<notin> set ids"
  shows "in_arrival_order (n # ids) bs"
proof -
  from assms(1) obtain S where d: "distinct ids" and xs: "map id_book bs = filter (\<lambda>i. i \<in> S) ids"
    by (rule in_arrival_orderE)
  have "filter (\<lambda>i. i \<in> S - {n}) ids = filter (\<lambda>i. i \<in> S) ids"
    using assms(2) by (intro filter_cong) auto
  then have "map id_book bs = filter (\<lambda>i. i \<in> S - {n}) (n # ids)"
    using xs by simp
  moreover have "distinct (n # ids)" using d assms(2) by simp
  ultimately show ?thesis by (rule in_arrival_orderI [rotated])
qed

lemma arrival_filter:
  assumes "in_arrival_order ids bs"
  shows "in_arrival_order ids (filter (\<lambda>b. id_book b \<noteq> i) bs)"
proof -
  from assms(1) obtain S where d: "distinct ids" and xs: "map id_book bs = filter (\<lambda>i. i \<in> S) ids"
    by (rule in_arrival_orderE)
  have "map id_book (filter (\<lambda>b. id_book b \<noteq> i) bs) = filter (\<lambda>x. x \<noteq> i) (map id_book bs)"
    by (simp add: filter_map comp_def)
  also have "\<dots> = filter (\<lambda>x. x \<in> S - {i}) ids"
    unfolding xs by (auto intro: filter_cong)
  finally show ?thesis using d by (rule in_arrival_orderI [rotated])
qed

lemma arrival_same_ids:
  assumes "map id_book bs' = map id_book bs" and "in_arrival_order ids bs"
  shows "in_arrival_order ids bs'"
  using assms(2) unfolding in_arrival_order_def by (simp only: assms(1))

lemma run_keeps_order:
  assumes "cache_inv getTime t used (books s)" and "orderly getTime t used rs"
    and "in_arrival_order ids (books s)" and "set ids \<subseteq> set used"
  shows "sortedDesc getTime (books (run rs s)) \<and>
         in_arrival_order (arrivals rs ids) (books (run rs s))"
  using assms
proof (induction rs arbitrary: s t used ids)
  case Nil
  then show ?case by (simp add: cache_inv_def)
next
  case (Cons r rs)
  show ?case
  proof (cases r)
    case (Add f m meta fileData)
    let ?b = "new_book m meta"
    from Cons.prems(2) Add have ok: "t \<le> getTime (addedDate ?b)" "id_book ?b \<notin> set used"
      and rest: "orderly getTime (getTime (addedDate ?b)) (id_book ?b # used) rs"
      by (simp_all add: new_book_fields split: if_splits)
    have fresh: "id_book ?b \<notin> set ids" using ok(2) Cons.prems(4) by auto
    have inv: "cache_inv getTime (getTime (addedDate ?b)) (id_book ?b # used) (books (perform r s))"
      using addBook_cache [of f m meta fileData s] cache_inv_add [OF Cons.prems(1) ok] Add
      by auto
    have arr: "in_arrival_order (id_book ?b # ids) (books (perform r s))"
      using addBook_cache [of f m meta fileData s] Add
        arrival_add_front [OF Cons.prems(3) fresh, of ?b] arrival_add_skip [OF Cons.prems(3) fresh]
      by auto
    have sub: "set (id_book ?b # ids) \<subseteq> set (id_book ?b # used)"
      using Cons.prems(4) by auto
    from Cons.IH [OF inv rest arr sub] Add show ?thesis by simp
  next
    case (Delete f i)
    from Cons.prems(2) Delete have rest: "orderly getTime t used rs" by simp
    have inv: "cache_inv getTime t used (books (perform r s))"
      using deleteBook_cache [of f i s] cache_inv_filter [OF Cons.prems(1)] Cons.prems(1) Delete
      by auto
    have arr: "in_arrival_order ids (books (perform r s))"
      using deleteBook_cache [of f i s] arrival_filter [OF Cons.prems(3), of i] Cons.prems(3) Delete
      by auto
    from Cons.IH [OF inv rest arr Cons.prems(4)] Delete show ?thesis by simp
  next
    case (Update f i u)
    from Cons.prems(2) Update have keys: "id_book_p u = None" "addedDate_p u = None"
      and rest: "orderly getTime t used rs"
      by (simp_all split: if_splits)
    have inv: "cache_inv getTime t used (books (perform r s))"
      using updateBook_cache [of f i u s] cache_inv_replace [OF Cons.prems(1) _ keys] Cons.prems(1)
        Update
      by auto
    have d: "distinct (map id_book (books s))"
      using Cons.prems(1) by (simp add: cache_inv_def ids_within_def)
    have "map id_book (books (perform r s)) = map id_book (books s)"
      using updateBook_cache [of f i u s] replace_keeps_ids_and_dates(1) [OF d _ keys] Update
      by auto
    then have arr: "in_arrival_order ids (books (perform r s))"
      using Cons.prems(3) by (rule arrival_same_ids)
    from Cons.IH [OF inv rest arr Cons.prems(4)] Update show ?thesis by simp
  qed
qed

text \<open>
  C4 (as amended). Start from a cache that is sorted in descending order of
  \<^verbatim>\<open>addedDate\<close> and holds no id twice. After any finite sequence of \<^verbatim>\<open>addBook\<close>,
  \<^verbatim>\<open>updateBook\<close> and \<^verbatim>\<open>deleteBook\<close> calls, whatever the stores do, in which every added
  record is dated no earlier than the records before it and gets a new id, and no
  update carries \<^verbatim>\<open>id\<close> or \<^verbatim>\<open>addedDate\<close>, the cache is sorted in descending order of
  \<^verbatim>\<open>addedDate\<close>, and its records stand in their order of arrival: the ids of the cache
  are, in this order, the still cached ones of the list that has every id added by the
  sequence, the later added first, in front of the ids of the start state in their
  order there. So no two cached records, of equal date or not, ever change places, and
  of two records of equal date the one added later stands first.
\<close>

theorem C4_cache_stays_sorted:
  assumes "sortedDesc getTime (books s)" and "dated_until getTime t (books s)"
    and "ids_within used (books s)" and "orderly getTime t used rs"
  shows "sortedDesc getTime (books (run rs s)) \<and>
         distinct (arrivals rs (map id_book (books s))) \<and>
         map id_book (books (run rs s)) =
           filter (\<lambda>i. i \<in> set (map id_book (books (run rs s))))
             (arrivals rs (map id_book (books s)))"
proof -
  have inv: "cache_inv getTime t used (books s)" using assms(1-3) by (simp add: cache_inv_def)
  have "distinct (map id_book (books s))" and sub: "set (map id_book (books s)) \<subseteq> set used"
    using assms(3) by (auto simp: ids_within_def list_all_iff)
  then have arr: "in_arrival_order (map id_book (books s)) (books s)"
    by (intro in_arrival_orderI [where S = UNIV]) simp_all
  from run_keeps_order [OF inv assms(4) arr sub] show ?thesis
    unfolding in_arrival_order_def .
qed


lemma sample_dates:
  "iso_date_ms ''2024-01-01'' = 1704067200000"
  "iso_date_ms ''2024-01-02'' = 1704153600000"
  "iso_date_ms ''2024-01-03'' = 1704240000000"
  "iso_date_ms ''2025-06-01'' = 1748736000000"
  by (simp_all add: iso_date_ms_def days_from_civil_def decimal_def Let_def)

lemmas facade_eval = addBook_def updateBook_def deleteBook_def priv_saveBook_def
  priv_idbSaveBook_def priv_deleteBook_def priv_idbDeleteBook_def priv_deleteFile_def
  priv_idbDeleteFile_def web_service_def no_faults_def no_updates_def pdf_meta_def
  book_of_def at_moment_def new_book_def spread_def spread_field_def Let_def called_def
  EbookMeta.extend_def UserEbook.fields_def

theorem C4_cache_stays_sorted_witness:
  "sortedDesc iso_date_ms
     (books (web_service\<lparr>books := [book_of ''b2'' ''2024-01-02'', book_of ''b1'' ''2024-01-01'']\<rparr>)) \<and>
   dated_until iso_date_ms (iso_date_ms ''2024-01-02'')
     (books (web_service\<lparr>books := [book_of ''b2'' ''2024-01-02'', book_of ''b1'' ''2024-01-01'']\<rparr>)) \<and>
   ids_within [''b1'', ''b2'']
     (books (web_service\<lparr>books := [book_of ''b2'' ''2024-01-02'', book_of ''b1'' ''2024-01-01'']\<rparr>)) \<and>
   orderly iso_date_ms (iso_date_ms ''2024-01-02'') [''b1'', ''b2'']
     [Add no_faults (at_moment ''2024-01-03'') pdf_meta None,
      Update no_faults ''b1'' (no_updates\<lparr>title_p := Some ''New title''\<rparr>),
      Delete no_faults ''b2''] \<and>
   sortedDesc iso_date_ms
     (books (run
       [Add no_faults (at_moment ''2024-01-03'') pdf_meta None,
        Update no_faults ''b1'' (no_updates\<lparr>title_p := Some ''New title''\<rparr>),
        Delete no_faults ''b2'']
       (web_service\<lparr>books := [book_of ''b2'' ''2024-01-02'', book_of ''b1'' ''2024-01-01'']\<rparr>))) \<and>
   map (\<lambda>b. (id_book b, addedDate b))
     (books (run
       [Add no_faults (at_moment ''2024-01-03'') pdf_meta None,
        Update no_faults ''b1'' (no_updates\<lparr>title_p := Some ''New title''\<rparr>),
        Delete no_faults ''b2'']
       (web_service\<lparr>books := [book_of ''b2'' ''2024-01-02'', book_of ''b1'' ''2024-01-01'']\<rparr>))) =
     [(''book-1700000000000-k3x9q'', ''2024-01-03''), (''b1'', ''2024-01-01'')] \<and>
   arrivals
     [Add no_faults (at_moment ''2024-01-03'') pdf_meta None,
      Update no_faults ''b1'' (no_updates\<lparr>title_p := Some ''New title''\<rparr>),
      Delete no_faults ''b2'']
     (map id_book
       (books (web_service\<lparr>books := [book_of ''b2'' ''2024-01-02'', book_of ''b1'' ''2024-01-01'']\<rparr>))) =
     [''book-1700000000000-k3x9q'', ''b2'', ''b1'']"
proof -
  let ?s = "web_service\<lparr>books := [book_of ''b2'' ''2024-01-02'', book_of ''b1'' ''2024-01-01'']\<rparr>"
  let ?rs = "[Add no_faults (at_moment ''2024-01-03'') pdf_meta None,
      Update no_faults ''b1'' (no_updates\<lparr>title_p := Some ''New title''\<rparr>),
      Delete no_faults ''b2'']"
  have h1: "sortedDesc iso_date_ms (books ?s)"
    by (simp add: sortedDesc_def web_service_def book_of_def EbookMeta.extend_def
        UserEbook.fields_def sample_dates)
  have h2: "dated_until iso_date_ms (iso_date_ms ''2024-01-02'') (books ?s)"
    by (simp add: dated_until_def web_service_def book_of_def EbookMeta.extend_def
        UserEbook.fields_def sample_dates)
  have h3: "ids_within [''b1'', ''b2''] (books ?s)"
    by (simp add: ids_within_def web_service_def book_of_def EbookMeta.extend_def
        UserEbook.fields_def)
  have h4: "orderly iso_date_ms (iso_date_ms ''2024-01-02'') [''b1'', ''b2''] ?rs"
    by (simp add: new_book_fields at_moment_def no_updates_def sample_dates)
  have h5: "map (\<lambda>b. (id_book b, addedDate b)) (books (run ?rs ?s)) =
      [(''book-1700000000000-k3x9q'', ''2024-01-03''), (''b1'', ''2024-01-01'')]"
    by (simp add: facade_eval)
  have h6: "arrivals ?rs (map id_book (books ?s)) = [''book-1700000000000-k3x9q'', ''b2'', ''b1'']"
    by (simp add: new_book_fields at_moment_def web_service_def book_of_def
        EbookMeta.extend_def UserEbook.fields_def)
  from C4_cache_stays_sorted [OF h1 h2 h3 h4] h1 h2 h3 h4 h5 h6 show ?thesis by simp
qed

text \<open>
  One update that carries \<^verbatim>\<open>addedDate\<close>: the second of two records, of 2024-01-01, is
  given the date 2025-06-01 and stays in second place, after the record of 2024-01-02.
\<close>

theorem C4_update_of_date_counterexample:
  "sortedDesc iso_date_ms
     (books (web_service\<lparr>books := [book_of ''b2'' ''2024-01-02'', book_of ''b1'' ''2024-01-01'']\<rparr>)) \<and>
   \<not> sortedDesc iso_date_ms
     (books (run [Update no_faults ''b1'' (no_updates\<lparr>addedDate_p := Some ''2025-06-01''\<rparr>)]
       (web_service\<lparr>books := [book_of ''b2'' ''2024-01-02'', book_of ''b1'' ''2024-01-01'']\<rparr>)))"
  by (simp add: facade_eval sortedDesc_def sample_dates)

end
